theory Spec2Isabelle
  imports Main "HOL-Library.AList"
begin

section \<open>JavaScript values used by the relay\<close>

text \<open>
  The relay (\<^verbatim>\<open>server.cjs\<close>) reads optional strings everywhere: a query parameter, a field
  of a parsed JSON event, an environment variable. Such a value is modelled as a
  \<open>string option\<close>, \<open>None\<close> standing for \<^verbatim>\<open>undefined\<close>/\<^verbatim>\<open>null\<close>. JavaScript treats both the
  missing value and the empty string as false in a condition.
\<close>

definition truthy :: "string option \<Rightarrow> bool" where
  "truthy v = (case v of None \<Rightarrow> False | Some s \<Rightarrow> s \<noteq> [])"

text \<open>\<^verbatim>\<open>v || ''\<close> on an optional string.\<close>

definition or_empty :: "string option \<Rightarrow> string" where
  "or_empty v = (case v of None \<Rightarrow> [] | Some s \<Rightarrow> s)"

text \<open>
  A timestamp is what \<^verbatim>\<open>Date.now()\<close> returned, in milliseconds. A stored timestamp used as
  a condition (\<^verbatim>\<open>ipCooldown && ...\<close>) is false when it is missing or zero.
\<close>

definition truthy_time :: "int option \<Rightarrow> bool" where
  "truthy_time v = (case v of None \<Rightarrow> False | Some t \<Rightarrow> t \<noteq> 0)"

section \<open>Rate limiting and circuit breaker\<close>

definition RATE_LIMIT_WINDOW_MS :: int where
  "RATE_LIMIT_WINDOW_MS = 60000"

definition RATE_LIMIT_MAX_REQUESTS :: nat where
  "RATE_LIMIT_MAX_REQUESTS = 60"

definition RATE_LIMIT_CIRCUIT_BREAKER :: nat where
  "RATE_LIMIT_CIRCUIT_BREAKER = 120"

definition WS_MAX_CONNECTIONS_PER_IP :: nat where
  "WS_MAX_CONNECTIONS_PER_IP = 5"

definition RECONNECT_COOLDOWN_MS :: int where
  "RECONNECT_COOLDOWN_MS = 60000"

definition WS_REJECTED_COOLDOWN_MS :: int where
  "WS_REJECTED_COOLDOWN_MS = 30000"

text \<open>One entry of \<^verbatim>\<open>rateLimitStore\<close>: \<^verbatim>\<open>{ count, windowStart, blocked }\<close>.\<close>

record rate_entry =
  count :: nat
  windowStart :: int
  blocked :: bool

datatype reason = circuit_breaker | rate_limit | ip_rejection_cooldown | stream_cooldown

text \<open>\<^verbatim>\<open>{ allowed: true }\<close> or \<^verbatim>\<open>{ allowed: false, reason }\<close>.\<close>

datatype verdict = Allowed | Rejected reason

type_synonym rate_store = "string \<rightharpoonup> rate_entry"

text \<open>
  \<^verbatim>\<open>checkRateLimit(ip)\<close>, with the clock reading \<open>now\<close> passed in. The entry object is
  mutated in place in the source; the model writes the final entry back into the store.
\<close>

definition checkRateLimit :: "string \<Rightarrow> int \<Rightarrow> rate_store \<Rightarrow> verdict \<times> rate_store" where
  "checkRateLimit ip now store =
     (let entry0 = (case store ip of
                      None \<Rightarrow> \<lparr>count = 0, windowStart = now, blocked = False\<rparr>
                    | Some e \<Rightarrow> e);
          entry1 = (if now - windowStart entry0 > RATE_LIMIT_WINDOW_MS
                    then entry0\<lparr>count := 0, windowStart := now, blocked := False\<rparr>
                    else entry0)
      in if blocked entry1 then (Rejected circuit_breaker, store(ip \<mapsto> entry1))
         else
           let entry2 = entry1\<lparr>count := count entry1 + 1\<rparr>
           in if count entry2 > RATE_LIMIT_CIRCUIT_BREAKER
              then (Rejected circuit_breaker, store(ip \<mapsto> entry2\<lparr>blocked := True\<rparr>))
              else if count entry2 > RATE_LIMIT_MAX_REQUESTS
              then (Rejected rate_limit, store(ip \<mapsto> entry2))
              else (Allowed, store(ip \<mapsto> entry2)))"

text \<open>
  Consecutive admission checks from one address, one per clock reading, in order; the
  verdicts are collected in order.
\<close>

fun admission_checks :: "string \<Rightarrow> int list \<Rightarrow> rate_store \<Rightarrow> verdict list \<times> rate_store" where
  "admission_checks ip [] store = ([], store)"
| "admission_checks ip (t # ts) store =
     (let (v, store1) = checkRateLimit ip t store;
          (vs, store2) = admission_checks ip ts store1
      in (v # vs, store2))"

section \<open>Reconnect cooldowns and connection tracking\<close>

text \<open>
  The process-wide tables next to \<^verbatim>\<open>rateLimitStore\<close>. A \<^verbatim>\<open>Set<ws>\<close> of sockets is a
  duplicate-free list of socket identities; \<^verbatim>\<open>reconnectCooldowns\<close> is keyed by the string
  \<^verbatim>\<open>`${ip}:${streamSid}`\<close>.
\<close>

record server =
  wsConnectionsByIp :: "string \<rightharpoonup> nat list"
  reconnectCooldowns :: "string \<rightharpoonup> int"
  ipRejectionCooldowns :: "string \<rightharpoonup> int"
  metricsWsRejections :: nat

text \<open>\<^verbatim>\<open>{ allowed: true }\<close> or \<^verbatim>\<open>{ allowed: false, reason, waitMs }\<close>.\<close>

datatype cooldown = Pass | Wait reason int

definition stream_key :: "string \<Rightarrow> string \<Rightarrow> string" where
  "stream_key ip sid = ip @ '':'' @ sid"

text \<open>\<^verbatim>\<open>checkReconnectCooldown(ip, streamSid)\<close> at clock reading \<open>now\<close>.\<close>

definition checkReconnectCooldown :: "string \<Rightarrow> string option \<Rightarrow> int \<Rightarrow> server \<Rightarrow> cooldown" where
  "checkReconnectCooldown ip streamSid now g =
     (let ipCooldown = ipRejectionCooldowns g ip
      in if truthy_time ipCooldown \<and> now - the ipCooldown < WS_REJECTED_COOLDOWN_MS
         then Wait ip_rejection_cooldown (WS_REJECTED_COOLDOWN_MS - (now - the ipCooldown))
         else if truthy streamSid
         then (let lastAttempt = reconnectCooldowns g (stream_key ip (the streamSid))
               in if truthy_time lastAttempt \<and> now - the lastAttempt < RECONNECT_COOLDOWN_MS
                  then Wait stream_cooldown (RECONNECT_COOLDOWN_MS - (now - the lastAttempt))
                  else Pass)
         else Pass)"

definition trackConnectionAttempt :: "string \<Rightarrow> string option \<Rightarrow> int \<Rightarrow> server \<Rightarrow> server" where
  "trackConnectionAttempt ip streamSid now g =
     (if truthy streamSid
      then g\<lparr>reconnectCooldowns := (reconnectCooldowns g)(stream_key ip (the streamSid) \<mapsto> now)\<rparr>
      else g)"

definition trackRejection :: "string \<Rightarrow> int \<Rightarrow> server \<Rightarrow> server" where
  "trackRejection ip now g =
     g\<lparr>metricsWsRejections := metricsWsRejections g + 1,
       ipRejectionCooldowns := (ipRejectionCooldowns g)(ip \<mapsto> now)\<rparr>"

definition canOpenWsConnection :: "string \<Rightarrow> server \<Rightarrow> bool" where
  "canOpenWsConnection ip g =
     (case wsConnectionsByIp g ip of
        None \<Rightarrow> True
      | Some connections \<Rightarrow> length connections < WS_MAX_CONNECTIONS_PER_IP)"

definition trackWsConnection :: "string \<Rightarrow> nat \<Rightarrow> server \<Rightarrow> server" where
  "trackWsConnection ip ws g =
     (let connections = (case wsConnectionsByIp g ip of None \<Rightarrow> [] | Some c \<Rightarrow> c)
      in g\<lparr>wsConnectionsByIp := (wsConnectionsByIp g)(ip \<mapsto> List.insert ws connections)\<rparr>)"

definition untrackWsConnection :: "string \<Rightarrow> nat \<Rightarrow> server \<Rightarrow> server" where
  "untrackWsConnection ip ws g =
     (case wsConnectionsByIp g ip of
        None \<Rightarrow> g
      | Some connections \<Rightarrow>
          (let rest = removeAll ws connections
           in if rest = []
              then g\<lparr>wsConnectionsByIp := (wsConnectionsByIp g)(ip := None)\<rparr>
              else g\<lparr>wsConnectionsByIp := (wsConnectionsByIp g)(ip \<mapsto> rest)\<rparr>))"

section \<open>The WebSocket upgrade handler\<close>

text \<open>
  What \<^verbatim>\<open>server.on('upgrade')\<close> reads from the request: the path and the \<^verbatim>\<open>token\<close> query
  parameter of its URL, and the address \<^verbatim>\<open>getClientIp(req)\<close>.
\<close>

record upgrade_request =
  pathname :: string
  clientIp :: string
  token :: "string option"

text \<open>
  The handler either destroys the socket (\<^verbatim>\<open>socket.destroy()\<close>) or hands it to
  \<^verbatim>\<open>wss.handleUpgrade\<close>, whose callback, for a well-formed handshake, tracks the new
  socket \<open>ws\<close> and emits the connection. \<open>expected\<close> is \<^verbatim>\<open>process.env.STREAM_SECRET\<close>.
  The handler runs to completion without yielding; all its \<^verbatim>\<open>Date.now()\<close> calls are
  taken as the one reading \<open>now\<close>.
\<close>

datatype upgrade_outcome = Destroyed | Upgraded

definition on_upgrade ::
  "string option \<Rightarrow> int \<Rightarrow> nat \<Rightarrow> upgrade_request \<Rightarrow> server \<Rightarrow> upgrade_outcome \<times> server" where
  "on_upgrade expected now ws req g =
     (if pathname req \<noteq> ''/twilio/stream'' then (Destroyed, g)
      else if checkReconnectCooldown (clientIp req) None now g \<noteq> Pass
      then (Destroyed, trackRejection (clientIp req) now g)
      else if \<not> canOpenWsConnection (clientIp req) g
      then (Destroyed, trackRejection (clientIp req) now g)
      else if truthy expected \<and> \<not> truthy (token req)
      then (Destroyed, trackRejection (clientIp req) now g)
      else if truthy expected \<and> token req \<noteq> expected
      then (Destroyed, trackRejection (clientIp req) now g)
      else (Upgraded, trackWsConnection (clientIp req) ws g))"

section \<open>One bridged call\<close>

text \<open>
  Everything below lives in the closure that \<^verbatim>\<open>wss.on('connection')\<close> creates for one
  telephony socket. The closure's variables are the fields of \<open>session\<close>. The two sockets
  are external objects: of each the model keeps what the code reads (\<^verbatim>\<open>readyState\<close>,
  \<^verbatim>\<open>bufferedAmount\<close>) and records what the code does to it (the messages sent, the
  \<^verbatim>\<open>close()\<close> calls). \<^verbatim>\<open>openaiWs\<close> is \<open>None\<close> while the variable is \<^verbatim>\<open>null\<close>. A timer
  variable is \<open>True\<close> while it holds a pending timeout. The persona selector \<^verbatim>\<open>agent\<close> and
  the logging flags are not tracked.
\<close>

datatype ready_state = CONNECTING | OPEN | CLOSING | CLOSED

datatype json = JNull | JBool bool | JNum int | JStr string
  | JArr "json list" | JObj "(string \<times> json) list"

text \<open>
  An entry of \<^verbatim>\<open>pendingFunctionCalls\<close>: \<^verbatim>\<open>{ name, arguments }\<close>. The table itself is an
  association list in insertion order, as a JavaScript \<^verbatim>\<open>Map\<close> is.
\<close>

record pending_call =
  name :: string
  arguments :: string

text \<open>
  A tool invocation as \<^verbatim>\<open>maybeHandleToolCall\<close> starts it: the call identifier, the function
  name and the argument text \<^verbatim>\<open>argsStr\<close> that is parsed into the tool's arguments.
\<close>

record invocation =
  call_id :: string
  fn_name :: string
  args_str :: string

text \<open>
  Messages the bridge sends to the speech-AI socket: \<^verbatim>\<open>input_audio_buffer.append\<close> with the
  audio, and \<^verbatim>\<open>conversation.item.create\<close> with a \<^verbatim>\<open>function_call_output\<close> item, of which
  the model keeps the call identifier and the value that \<^verbatim>\<open>JSON.stringify\<close> serialises
  into \<^verbatim>\<open>output\<close>.
\<close>

datatype openai_out = InputAudioBufferAppend string | FunctionCallOutput string json

record session =
  ws_clientIp :: string
  ws_id :: nat
  ws_readyState :: ready_state
  ws_bufferedAmount :: nat
  ws_close_calls :: nat
  streamSid :: "string option"
  openaiWs :: "ready_state option"
  openaiStarted :: bool
  openai_close_calls :: nat
  audioAggregationBuffer :: "string list"
  audioAggregationTimer :: bool
  inboundAudioBuffer :: "string list"
  inboundAggregationTimer :: bool
  handledToolCallIds :: "string set"
  handledToolCallOrder :: "string list"
  pendingFunctionCalls :: "(string \<times> pending_call) list"
  sent_to_twilio :: "string list"
  sent_to_openai :: "openai_out list"
  dispatched :: "invocation list"

definition MAX_AUDIO_QUEUE_SIZE :: nat where
  "MAX_AUDIO_QUEUE_SIZE = 500"

definition MAX_HANDLED_TOOL_IDS :: nat where
  "MAX_HANDLED_TOOL_IDS = 100"

definition MAX_PENDING_FUNCTION_CALLS :: nat where
  "MAX_PENDING_FUNCTION_CALLS = 50"

definition AUDIO_AGGREGATION_MAX_CHUNKS :: nat where
  "AUDIO_AGGREGATION_MAX_CHUNKS = 10"

text \<open>The closure's variables as \<^verbatim>\<open>wss.on('connection')\<close> initialises them.\<close>

definition new_session :: "string \<Rightarrow> nat \<Rightarrow> session" where
  "new_session ip ws =
     \<lparr>ws_clientIp = ip, ws_id = ws, ws_readyState = OPEN, ws_bufferedAmount = 0,
      ws_close_calls = 0, streamSid = None,
      openaiWs = None, openaiStarted = False, openai_close_calls = 0,
      audioAggregationBuffer = [], audioAggregationTimer = False,
      inboundAudioBuffer = [], inboundAggregationTimer = False,
      handledToolCallIds = {}, handledToolCallOrder = [],
      pendingFunctionCalls = [],
      sent_to_twilio = [], sent_to_openai = [], dispatched = []\<rparr>"

subsection \<open>Bounded set of handled call identifiers\<close>

text \<open>
  The loop of \<^verbatim>\<open>addHandledToolCallId\<close>: while the order list is at capacity, shift the
  oldest identifier out and delete it from the set.
\<close>

fun evict_oldest :: "string list \<Rightarrow> string set \<Rightarrow> string list \<times> string set" where
  "evict_oldest [] ids = ([], ids)"
| "evict_oldest (oldest # rest) ids =
     (if length (oldest # rest) \<ge> MAX_HANDLED_TOOL_IDS
      then evict_oldest rest (ids - {oldest})
      else (oldest # rest, ids))"

definition addHandledToolCallId :: "string \<Rightarrow> session \<Rightarrow> bool \<times> session" where
  "addHandledToolCallId callId s =
     (if callId \<in> handledToolCallIds s then (False, s)
      else
        let (order, ids) = evict_oldest (handledToolCallOrder s) (handledToolCallIds s)
        in (True, s\<lparr>handledToolCallIds := insert callId ids,
                    handledToolCallOrder := order @ [callId]\<rparr>))"

subsection \<open>Sending\<close>

definition sendToOpenAI :: "openai_out \<Rightarrow> session \<Rightarrow> session" where
  "sendToOpenAI ev s =
     (if openaiWs s = Some OPEN then s\<lparr>sent_to_openai := sent_to_openai s @ [ev]\<rparr> else s)"

text \<open>\<^verbatim>\<open>sendToTwilio(payload)\<close>: the media message is sent, or not, and the flag is returned.\<close>

definition sendToTwilio :: "string \<Rightarrow> session \<Rightarrow> bool \<times> session" where
  "sendToTwilio payload s =
     (if ws_readyState s = OPEN \<and> truthy (streamSid s)
      then (if ws_bufferedAmount s > 64 * 1024 then (False, s)
            else (True, s\<lparr>sent_to_twilio := sent_to_twilio s @ [payload]\<rparr>))
      else (False, s))"

subsection \<open>Outbound audio aggregation\<close>

definition flushAudioAggregation :: "session \<Rightarrow> session" where
  "flushAudioAggregation s =
     (let s1 = s\<lparr>audioAggregationTimer := False\<rparr>
      in if audioAggregationBuffer s1 = [] then s1
         else
           let combined = concat (audioAggregationBuffer s1);
               s2 = s1\<lparr>audioAggregationBuffer := []\<rparr>
           in snd (sendToTwilio combined s2))"

definition queueAudio :: "string \<Rightarrow> session \<Rightarrow> session" where
  "queueAudio payload s =
     (if length (audioAggregationBuffer s) \<ge> MAX_AUDIO_QUEUE_SIZE then s
      else
        let s1 = s\<lparr>audioAggregationBuffer := audioAggregationBuffer s @ [payload]\<rparr>
        in if length (audioAggregationBuffer s1) \<ge> AUDIO_AGGREGATION_MAX_CHUNKS
           then flushAudioAggregation s1
           else if \<not> audioAggregationTimer s1 then s1\<lparr>audioAggregationTimer := True\<rparr>
           else s1)"

subsection \<open>The speech-AI leg\<close>

text \<open>
  \<^verbatim>\<open>closeOpenAI()\<close>: \<^verbatim>\<open>openaiWs?.close()\<close> is a call on the socket only when the variable
  holds one.
\<close>

definition closeOpenAI :: "session \<Rightarrow> session" where
  "closeOpenAI s =
     (let s1 = (if openaiWs s \<noteq> None
                then s\<lparr>openai_close_calls := openai_close_calls s + 1\<rparr> else s);
          s2 = s1\<lparr>openaiWs := None\<rparr>;
          s3 = flushAudioAggregation s2
      in s3\<lparr>audioAggregationBuffer := []\<rparr>)"

text \<open>
  \<^verbatim>\<open>startOpenAI()\<close> up to the creation of the socket, which starts in state CONNECTING;
  \<open>apiKey\<close> is \<^verbatim>\<open>process.env.OPENAI_API_KEY\<close>.
\<close>

definition startOpenAI :: "string option \<Rightarrow> session \<Rightarrow> session" where
  "startOpenAI apiKey s =
     (if openaiStarted s then s
      else
        let s1 = s\<lparr>openaiStarted := True\<rparr>
        in if \<not> truthy apiKey then s1 else s1\<lparr>openaiWs := Some CONNECTING\<rparr>)"

subsection \<open>Inbound audio aggregation\<close>

definition flushInboundAudio :: "session \<Rightarrow> session" where
  "flushInboundAudio s =
     (let s1 = s\<lparr>inboundAggregationTimer := False\<rparr>
      in if inboundAudioBuffer s1 = [] then s1
         else
           let combined = concat (inboundAudioBuffer s1);
               s2 = s1\<lparr>inboundAudioBuffer := []\<rparr>
           in sendToOpenAI (InputAudioBufferAppend combined) s2)"

definition queueInboundAudio :: "string \<Rightarrow> session \<Rightarrow> session" where
  "queueInboundAudio payload s =
     (let s1 = s\<lparr>inboundAudioBuffer := inboundAudioBuffer s @ [payload]\<rparr>
      in if length (inboundAudioBuffer s1) \<ge> 10 then flushInboundAudio s1
         else if \<not> inboundAggregationTimer s1 then s1\<lparr>inboundAggregationTimer := True\<rparr>
         else s1)"

subsection \<open>Events of the speech-AI leg\<close>

text \<open>
  The fields the message handler reads from a parsed event. \<open>fc_item\<close> is the \<^verbatim>\<open>item\<close> of an
  \<^verbatim>\<open>output_item\<close> event or an element of \<^verbatim>\<open>response.output\<close>.
\<close>

record fc_item =
  item_type :: "string option"
  item_call_id :: "string option"
  item_name :: "string option"
  item_arguments :: "string option"

datatype openai_event =
    AudioDelta "string option"
  | FunctionCallArgumentsDelta "string option" "string option"
  | OutputItemAdded "fc_item option"
  | OutputItemDone "fc_item option"
  | FunctionCallArgumentsDone "string option" "string option" "string option"
  | ResponseDone "fc_item list option"
  | OtherEvent

text \<open>\<^verbatim>\<open>ev?.item?.type === 'function_call'\<close>.\<close>

definition is_function_call :: "fc_item option \<Rightarrow> bool" where
  "is_function_call item =
     (case item of None \<Rightarrow> False | Some i \<Rightarrow> item_type i = Some ''function_call'')"

definition pending_has :: "string \<Rightarrow> session \<Rightarrow> bool" where
  "pending_has cid s = (map_of (pendingFunctionCalls s) cid \<noteq> None)"

definition pending_set :: "string \<Rightarrow> pending_call \<Rightarrow> session \<Rightarrow> session" where
  "pending_set cid entry s =
     s\<lparr>pendingFunctionCalls := AList.update cid entry (pendingFunctionCalls s)\<rparr>"

definition pending_delete :: "string \<Rightarrow> session \<Rightarrow> session" where
  "pending_delete cid s = s\<lparr>pendingFunctionCalls := AList.delete cid (pendingFunctionCalls s)\<rparr>"

text \<open>
  The first lines of \<^verbatim>\<open>maybeHandleToolCall\<close>: \<^verbatim>\<open>callId\<close>, \<^verbatim>\<open>fnName\<close> and \<^verbatim>\<open>argsStr\<close> as
  the two authoritative event forms set them (\<^verbatim>\<open>undefined\<close> is \<open>None\<close> for the identifier and
  the empty string for the two others, which is how the code then tests them).
\<close>

definition call_info :: "openai_event \<Rightarrow> string option \<times> string \<times> string" where
  "call_info ev =
     (case ev of
        FunctionCallArgumentsDone callId nm args \<Rightarrow> (callId, or_empty nm, or_empty args)
      | OutputItemDone item \<Rightarrow>
          (if is_function_call item
           then (item_call_id (the item), or_empty (item_name (the item)),
                 or_empty (item_arguments (the item)))
           else (None, [], []))
      | _ \<Rightarrow> (None, [], []))"

text \<open>
  \<^verbatim>\<open>maybeHandleToolCall\<close> up to the call of \<^verbatim>\<open>executeTool\<close>, which is where the
  invocation is handed to the executor. This part runs inside the message handler, before
  the first \<^verbatim>\<open>await\<close>.
\<close>

definition maybeHandleToolCall :: "openai_event \<Rightarrow> session \<Rightarrow> session" where
  "maybeHandleToolCall ev s =
     (let (callId, fnName, argsStr) = call_info ev
      in if fnName = [] \<or> \<not> truthy callId then s
         else
           let s1 = pending_delete (the callId) s;
               (fresh, s2) = addHandledToolCallId (the callId) s1
           in if \<not> fresh then s2
              else s2\<lparr>dispatched := dispatched s2 @
                        [\<lparr>call_id = the callId, fn_name = fnName, args_str = argsStr\<rparr>]\<rparr>)"

text \<open>One step of the loop over \<^verbatim>\<open>ev.response.output\<close>.\<close>

definition response_done_item :: "fc_item \<Rightarrow> session \<Rightarrow> session" where
  "response_done_item item s =
     (if item_type item = Some ''function_call'' \<and> truthy (item_call_id item)
      then pending_set (the (item_call_id item))
             \<lparr>name = or_empty (item_name item), arguments = or_empty (item_arguments item)\<rparr> s
      else s)"

text \<open>
  \<^verbatim>\<open>openaiWs.on('message')\<close> on a parsed event. The handler is a sequence of tests on
  \<^verbatim>\<open>ev.type\<close>, of which one event satisfies at most one group.
\<close>

definition on_openai_message :: "openai_event \<Rightarrow> session \<Rightarrow> session" where
  "on_openai_message ev s =
     (case ev of
        AudioDelta delta \<Rightarrow> (if truthy delta then queueAudio (the delta) s else s)
      | FunctionCallArgumentsDelta cid delta \<Rightarrow>
          (if truthy cid then
             (if \<not> pending_has (the cid) s then
                (if length (pendingFunctionCalls s) \<ge> MAX_PENDING_FUNCTION_CALLS then s
                 else pending_set (the cid) \<lparr>name = [], arguments = or_empty delta\<rparr> s)
              else
                (let pending = the (map_of (pendingFunctionCalls s) (the cid))
                 in pending_set (the cid)
                      (pending\<lparr>arguments := arguments pending @ or_empty delta\<rparr>) s))
           else s)
      | OutputItemAdded item \<Rightarrow>
          (if is_function_call item \<and> truthy (item_call_id (the item)) then
             (let cid = the (item_call_id (the item))
              in if \<not> pending_has cid s then
                   (if length (pendingFunctionCalls s) \<ge> MAX_PENDING_FUNCTION_CALLS then s
                    else pending_set cid
                           \<lparr>name = or_empty (item_name (the item)), arguments = []\<rparr> s)
                 else
                   (let pending = the (map_of (pendingFunctionCalls s) cid)
                    in pending_set cid (pending\<lparr>name := or_empty (item_name (the item))\<rparr>) s))
           else s)
      | OutputItemDone item \<Rightarrow>
          (if is_function_call item then
             maybeHandleToolCall ev
               (if truthy (item_call_id (the item))
                then pending_set (the (item_call_id (the item)))
                       \<lparr>name = or_empty (item_name (the item)),
                        arguments = or_empty (item_arguments (the item))\<rparr> s
                else s)
           else s)
      | FunctionCallArgumentsDone _ _ _ \<Rightarrow> maybeHandleToolCall ev s
      | ResponseDone output \<Rightarrow>
          (case output of None \<Rightarrow> s | Some items \<Rightarrow> fold response_done_item items s)
      | OtherEvent \<Rightarrow> s)"

text \<open>The handler run on a sequence of events, in order.\<close>

definition on_openai_messages :: "openai_event list \<Rightarrow> session \<Rightarrow> session" where
  "on_openai_messages evs s = fold on_openai_message evs s"

subsection \<open>Executing a tool and returning its result\<close>

text \<open>
  A thrown value, as the \<^verbatim>\<open>catch\<close> reads it: \<^verbatim>\<open>err?.message\<close> and \<^verbatim>\<open>String(err)\<close>.
\<close>

record thrown =
  message :: "string option"
  as_string :: string

text \<open>\<^verbatim>\<open>String(err?.message || err)\<close>.\<close>

definition error_text :: "thrown \<Rightarrow> string" where
  "error_text err = (if truthy (message err) then the (message err) else as_string err)"

text \<open>\<^verbatim>\<open>new Error(msg)\<close>.\<close>

definition new_Error :: "string \<Rightarrow> thrown" where
  "new_Error msg = \<lparr>message = Some msg, as_string = ''Error: '' @ msg\<rparr>"

text \<open>The names \<^verbatim>\<open>executeTool\<close> tests for, in its order.\<close>

definition tool_names :: "string list" where
  "tool_names =
     [''detect_intent'', ''update_call_memory'', ''lookup_customer'', ''request_callback'',
      ''escalate_to_human'', ''send_followup_sms'', ''calendar_find_slots'',
      ''calendar_check_time'', ''calendar_check_time_nl'', ''calendar_create_event'',
      ''calendar_update_event'', ''email_search'', ''email_get'', ''email_get_latest'',
      ''email_draft_create'', ''email_send_draft'', ''email_send'']"

text \<open>
  \<^verbatim>\<open>executeTool(name, toolArgs)\<close>. What the branch of a known tool computes depends on the
  clock, on the call memory and on the answers of the calendar and mail services; it is
  the parameter \<open>body\<close>, which returns a value (\<open>Inr\<close>) or throws (\<open>Inl\<close>). A name that no
  branch tests for reaches the final \<^verbatim>\<open>throw\<close>.
\<close>

definition executeTool :: "(string \<Rightarrow> json \<Rightarrow> thrown + json) \<Rightarrow> string \<Rightarrow> json \<Rightarrow> thrown + json" where
  "executeTool body nm toolArgs =
     (if nm \<in> set tool_names then body nm toolArgs
      else Inl (new_Error (''Unknown tool: '' @ nm)))"

text \<open>
  \<^verbatim>\<open>safeJsonParse(argsStr || '{}')\<close> and the fallback to the empty object; \<open>parse\<close> is
  \<^verbatim>\<open>JSON.parse\<close>, \<open>None\<close> where it throws.
\<close>

definition tool_args :: "(string \<Rightarrow> json option) \<Rightarrow> string \<Rightarrow> json" where
  "tool_args parse argsStr =
     (case parse (if argsStr = [] then ''{}'' else argsStr) of
        Some v \<Rightarrow> v
      | None \<Rightarrow> JObj [])"

text \<open>
  The \<^verbatim>\<open>try\<close>/\<^verbatim>\<open>catch\<close> around \<^verbatim>\<open>executeTool\<close>: the result, or \<^verbatim>\<open>{ error }\<close>.
  \<^verbatim>\<open>logTool\<close> catches its own failures and changes nothing in the session.
\<close>

definition tool_result :: "(string \<Rightarrow> json \<Rightarrow> thrown + json) \<Rightarrow> string \<Rightarrow> json \<Rightarrow> json" where
  "tool_result body fnName args =
     (case executeTool body fnName args of
        Inr result \<Rightarrow> result
      | Inl err \<Rightarrow> JObj [(''error'', JStr (error_text err))])"

text \<open>
  The rest of \<^verbatim>\<open>maybeHandleToolCall\<close>, which runs when the executor has settled: the
  result is sent back as a \<^verbatim>\<open>function_call_output\<close> item.
\<close>

definition complete_tool_call ::
  "(string \<Rightarrow> json \<Rightarrow> thrown + json) \<Rightarrow> (string \<Rightarrow> json option) \<Rightarrow> invocation \<Rightarrow> session \<Rightarrow> session" where
  "complete_tool_call body parse call s =
     sendToOpenAI
       (FunctionCallOutput (call_id call)
          (tool_result body (fn_name call) (tool_args parse (args_str call)))) s"

subsection \<open>Events of the telephony leg\<close>

text \<open>
  What the handler reads from a \<^verbatim>\<open>start\<close> message: \<^verbatim>\<open>start.streamSid\<close> and, from the custom
  parameters, \<^verbatim>\<open>token\<close>. Custom parameters are strings, as the telephony provider sends
  them.
\<close>

record start_msg =
  start_streamSid :: "string option"
  cp_token :: "string option"

text \<open>
  \<^verbatim>\<open>ws.close()\<close>: the call is recorded; a socket that is not yet closed starts its closing
  handshake.
\<close>

definition ws_close :: "session \<Rightarrow> session" where
  "ws_close s =
     s\<lparr>ws_close_calls := ws_close_calls s + 1,
       ws_readyState := (if ws_readyState s = CLOSED then CLOSED else CLOSING)\<rparr>"

text \<open>
  The \<^verbatim>\<open>start\<close> branch of \<^verbatim>\<open>ws.on('message')\<close>. \<open>expected\<close> is \<^verbatim>\<open>process.env.STREAM_SECRET\<close>,
  \<open>apiKey\<close> is \<^verbatim>\<open>process.env.OPENAI_API_KEY\<close>.
\<close>

definition on_start ::
  "string option \<Rightarrow> string option \<Rightarrow> int \<Rightarrow> start_msg \<Rightarrow> session \<times> server \<Rightarrow> session \<times> server" where
  "on_start expected apiKey now msg sg =
     (let s1 = (fst sg)\<lparr>streamSid := start_streamSid msg\<rparr>;
          g1 = (if ws_clientIp s1 \<noteq> [] \<and> truthy (streamSid s1)
                then trackConnectionAttempt (ws_clientIp s1) (streamSid s1) now (snd sg)
                else snd sg)
      in if truthy expected \<and> truthy (cp_token msg) \<and> cp_token msg \<noteq> expected
         then (ws_close s1,
               if ws_clientIp s1 \<noteq> [] then trackRejection (ws_clientIp s1) now g1 else g1)
         else (startOpenAI apiKey s1, g1))"

text \<open>The \<^verbatim>\<open>media\<close> branch, on \<^verbatim>\<open>msg.media?.payload\<close>.\<close>

definition on_media :: "string option \<Rightarrow> session \<Rightarrow> session" where
  "on_media payload s = (if truthy payload then queueInboundAudio (the payload) s else s)"

text \<open>The \<^verbatim>\<open>stop\<close> branch.\<close>

definition on_stop :: "session \<Rightarrow> session" where
  "on_stop s = closeOpenAI (flushInboundAudio s)"

subsection \<open>Teardown\<close>

text \<open>\<^verbatim>\<open>ws.on('close')\<close>, the only place where the session's state is cleared.\<close>

definition on_ws_close :: "session \<times> server \<Rightarrow> session \<times> server" where
  "on_ws_close sg =
     (let s1 = closeOpenAI (flushInboundAudio (fst sg));
          s2 = s1\<lparr>audioAggregationTimer := False, inboundAggregationTimer := False\<rparr>;
          g1 = (if ws_clientIp s2 \<noteq> []
                then untrackWsConnection (ws_clientIp s2) (ws_id s2) (snd sg)
                else snd sg)
      in (s2\<lparr>audioAggregationBuffer := [], inboundAudioBuffer := [],
              handledToolCallIds := {}, handledToolCallOrder := [],
              pendingFunctionCalls := []\<rparr>, g1))"





subsection \<open>What happens to the outbound aggregator during a call\<close>

text \<open>
  The speech-AI leg offers a frame (\<^verbatim>\<open>queueAudio\<close>, called for every audio delta), the
  aggregation timer fires (\<^verbatim>\<open>flushAudioAggregation\<close>), or the telephony socket reports
  another number of unsent bytes.
\<close>

datatype aggregator_event = Offer string | TimerFires | Backpressure nat

fun aggregator_step :: "aggregator_event \<Rightarrow> session \<Rightarrow> session" where
  "aggregator_step (Offer payload) s = queueAudio payload s"
| "aggregator_step TimerFires s = flushAudioAggregation s"
| "aggregator_step (Backpressure n) s = s\<lparr>ws_bufferedAmount := n\<rparr>"

section \<open>Notions used in the statements and proofs\<close>

text \<open>The process-wide tables as the module initialises them.\<close>

definition new_server :: server where
  "new_server = \<lparr>wsConnectionsByIp = Map.empty, reconnectCooldowns = Map.empty,
                 ipRejectionCooldowns = Map.empty, metricsWsRejections = 0\<rparr>"

text \<open>An upgrade request on the media-stream path.\<close>

definition stream_request :: "string \<Rightarrow> string option \<Rightarrow> upgrade_request" where
  "stream_request ip tok = \<lparr>pathname = ''/twilio/stream'', clientIp = ip, token = tok\<rparr>"

text \<open>
  Upgrade attempts handled one after the other, each with its clock reading and the
  identity its socket gets if it is accepted.
\<close>

fun on_upgrades ::
  "string option \<Rightarrow> (int \<times> nat \<times> upgrade_request) list \<Rightarrow> server
     \<Rightarrow> upgrade_outcome list \<times> server" where
  "on_upgrades expected [] g = ([], g)"
| "on_upgrades expected ((now, ws, req) # rest) g =
     (let (out, g1) = on_upgrade expected now ws req g;
          (outs, g2) = on_upgrades expected rest g1
      in (out # outs, g2))"

text \<open>The \<^verbatim>\<open>item\<close> of an \<^verbatim>\<open>output_item\<close> event that describes a function call.\<close>

definition function_call_item :: "string \<Rightarrow> string option \<Rightarrow> string option \<Rightarrow> fc_item" where
  "function_call_item cid nm args =
     \<lparr>item_type = Some ''function_call'', item_call_id = Some cid,
      item_name = nm, item_arguments = args\<rparr>"

text \<open>The last \<open>n\<close> elements of a list.\<close>

definition lastn :: "nat \<Rightarrow> 'a list \<Rightarrow> 'a list" where
  "lastn n xs = drop (length xs - n) xs"

text \<open>The call identifiers handed to the executor so far, oldest first.\<close>

definition dispatched_ids :: "session \<Rightarrow> string list" where
  "dispatched_ids s = map call_id (dispatched s)"

text \<open>
  What one event can do to the dispatch history: leave it alone, or dispatch one call,
  which enters the handled set after the eviction of the oldest entries.
\<close>

definition same_history :: "session \<Rightarrow> session \<Rightarrow> bool" where
  "same_history s s' \<longleftrightarrow>
     dispatched s' = dispatched s \<and> handledToolCallIds s' = handledToolCallIds s
     \<and> handledToolCallOrder s' = handledToolCallOrder s"

definition dispatches :: "invocation \<Rightarrow> session \<Rightarrow> session \<Rightarrow> bool" where
  "dispatches call s s' \<longleftrightarrow>
     call_id call \<notin> handledToolCallIds s
     \<and> dispatched s' = dispatched s @ [call]
     \<and> handledToolCallIds s' =
         insert (call_id call) (handledToolCallIds s
           - set (take (length (handledToolCallOrder s) - 99) (handledToolCallOrder s)))
     \<and> handledToolCallOrder s' =
         drop (length (handledToolCallOrder s) - 99) (handledToolCallOrder s) @ [call_id call]"

text \<open>Two occurrences of one identifier have more than 100 positions between them.\<close>

definition far_apart :: "string list \<Rightarrow> bool" where
  "far_apart ids \<longleftrightarrow> (\<forall>j < length ids. \<forall>i < j. ids ! i = ids ! j \<longrightarrow> 100 < j - i)"

text \<open>
  The invariant of the handled set: it is the set of the order list, which has no
  duplicates and holds the identifiers of the latest 100 dispatches.
\<close>

definition handled_inv :: "session \<Rightarrow> bool" where
  "handled_inv s \<longleftrightarrow>
     handledToolCallIds s = set (handledToolCallOrder s)
     \<and> distinct (handledToolCallOrder s)
     \<and> handledToolCallOrder s = lastn 100 (dispatched_ids s)
     \<and> far_apart (dispatched_ids s)"

text \<open>
  An authoritative event for the tool \<^verbatim>\<open>lookup\<close>, and 101 distinct call identifiers
  (\<^verbatim>\<open>c\<close>, \<^verbatim>\<open>cc\<close>, \<^verbatim>\<open>ccc\<close>, ...).
\<close>

definition done_event :: "string \<Rightarrow> openai_event" where
  "done_event cid = FunctionCallArgumentsDone (Some cid) (Some ''lookup'') (Some ''{}'')"

definition many_ids :: "string list" where
  "many_ids = map (\<lambda>k. replicate (Suc k) (CHR ''c'')) [0..<101]"

text \<open>The verdict on the \<open>k\<close>-th counted request of a window.\<close>

definition verdict_at :: "nat \<Rightarrow> verdict" where
  "verdict_at k =
     (if k > RATE_LIMIT_CIRCUIT_BREAKER then Rejected circuit_breaker
      else if k > RATE_LIMIT_MAX_REQUESTS then Rejected rate_limit
      else Allowed)"

section \<open>Rate limiting: one window of 130 requests\<close>

lemmas rate_consts =
  RATE_LIMIT_WINDOW_MS_def RATE_LIMIT_MAX_REQUESTS_def RATE_LIMIT_CIRCUIT_BREAKER_def

lemma checkRateLimit_in_window:
  assumes "store ip = Some \<lparr>count = c, windowStart = w, blocked = (c > 120)\<rparr>"
    and "c \<le> 121" and "t - w \<le> 60000"
  shows "checkRateLimit ip t store =
           (verdict_at (Suc c),
            store(ip \<mapsto> \<lparr>count = min (Suc c) 121, windowStart = w, blocked = (Suc c > 120)\<rparr>))"
  using assms by (auto simp: checkRateLimit_def verdict_at_def rate_consts Let_def)

lemma admission_checks_in_window:
  assumes "store ip = Some \<lparr>count = c, windowStart = w, blocked = (c > 120)\<rparr>"
    and "c \<le> 121" and "\<forall>t \<in> set ts. t - w \<le> 60000"
  shows "fst (admission_checks ip ts store) = map (\<lambda>k. verdict_at (c + k)) [1..<Suc (length ts)]
       \<and> snd (admission_checks ip ts store) ip =
           Some \<lparr>count = min (c + length ts) 121, windowStart = w,
                 blocked = (c + length ts > 120)\<rparr>"
  using assms
proof (induction ts arbitrary: c store)
  case Nil
  then show ?case by simp
next
  case (Cons t ts)
  let ?c1 = "min (Suc c) 121"
  let ?s1 = "store(ip \<mapsto> \<lparr>count = ?c1, windowStart = w, blocked = (Suc c > 120)\<rparr>)"
  have step: "checkRateLimit ip t store = (verdict_at (Suc c), ?s1)"
    using Cons.prems by (intro checkRateLimit_in_window) auto
  have blk: "(Suc c > 120) = (?c1 > 120)" by auto
  have s1: "?s1 ip = Some \<lparr>count = ?c1, windowStart = w, blocked = (?c1 > 120)\<rparr>"
    using blk by simp
  have IH: "fst (admission_checks ip ts ?s1) = map (\<lambda>k. verdict_at (?c1 + k)) [1..<Suc (length ts)]
       \<and> snd (admission_checks ip ts ?s1) ip =
           Some \<lparr>count = min (?c1 + length ts) 121, windowStart = w,
                 blocked = (?c1 + length ts > 120)\<rparr>"
    using Cons.prems by (intro Cons.IH[of "?s1" "?c1"] s1) auto
  have v: "verdict_at (?c1 + k) = verdict_at (Suc c + k)" for k
    by (auto simp: verdict_at_def rate_consts)
  have m: "map (\<lambda>k. verdict_at (c + k)) [1..<Suc (Suc (length ts))]
         = verdict_at (Suc c) # map (\<lambda>k. verdict_at (Suc c + k)) [1..<Suc (length ts)]"
    by (simp add: upt_conv_Cons map_Suc_upt[symmetric] del: upt_Suc)
  show ?case
    using IH step v m by (auto simp: split_beta Let_def)
qed

lemma verdicts_130:
  "map verdict_at [1..<131] =
     replicate 60 Allowed @ replicate 60 (Rejected rate_limit) @ replicate 10 (Rejected circuit_breaker)"
proof (rule nth_equalityI)
  show "length (map verdict_at [1..<131]) =
        length (replicate 60 Allowed @ replicate 60 (Rejected rate_limit)
                @ replicate 10 (Rejected circuit_breaker))"
    by simp
next
  fix i assume "i < length (map verdict_at [1..<131])"
  then have i: "i < 130" by simp
  then show "map verdict_at [1..<131] ! i =
        (replicate 60 Allowed @ replicate 60 (Rejected rate_limit)
         @ replicate 10 (Rejected circuit_breaker)) ! i"
    by (auto simp: nth_append verdict_at_def rate_consts)
qed

lemma checkRateLimit_opens_window:
  assumes "case store ip of None \<Rightarrow> True | Some e \<Rightarrow> t - windowStart e > RATE_LIMIT_WINDOW_MS"
  shows "checkRateLimit ip t store =
           (Allowed, store(ip \<mapsto> \<lparr>count = 1, windowStart = t, blocked = False\<rparr>))"
  using assms
  by (auto simp: checkRateLimit_def rate_consts Let_def split: option.splits)

text \<open>
  C5. 130 consecutive admission checks from one address, the first of which opens the
  window (the address has no entry, or its previous window has expired) and all of which
  fall within 60 seconds of the first: checks 1 to 60 are allowed, checks 61 to 120 are
  rejected with reason \<open>rate_limit\<close>, checks 121 to 130 are rejected with reason
  \<open>circuit_breaker\<close>. A 131st check more than 60 seconds after the first resets the window
  and is allowed.
\<close>

theorem rate_limit_130_then_reset:
  assumes fresh: "case store ip of None \<Rightarrow> True
                  | Some e \<Rightarrow> t1 - windowStart e > RATE_LIMIT_WINDOW_MS"
    and len: "length ts = 129"
    and window: "\<forall>t \<in> set ts. t - t1 \<le> RATE_LIMIT_WINDOW_MS"
    and later: "t131 - t1 > RATE_LIMIT_WINDOW_MS"
  shows "fst (admission_checks ip (t1 # ts) store) =
           replicate 60 Allowed @ replicate 60 (Rejected rate_limit)
           @ replicate 10 (Rejected circuit_breaker)
       \<and> fst (checkRateLimit ip t131 (snd (admission_checks ip (t1 # ts) store))) = Allowed"
proof -
  let ?s1 = "store(ip \<mapsto> \<lparr>count = 1, windowStart = t1, blocked = False\<rparr>)"
  have first: "checkRateLimit ip t1 store = (Allowed, ?s1)"
    using fresh by (rule checkRateLimit_opens_window)
  have s1: "?s1 ip = Some \<lparr>count = 1, windowStart = t1, blocked = ((1::nat) > 120)\<rparr>"
    by simp
  have w: "\<forall>t \<in> set ts. t - t1 \<le> 60000"
    using window by (simp add: rate_consts)
  have rest: "fst (admission_checks ip ts ?s1) = map (\<lambda>k. verdict_at (1 + k)) [1..<Suc (length ts)]
       \<and> snd (admission_checks ip ts ?s1) ip =
           Some \<lparr>count = min (1 + length ts) 121, windowStart = t1,
                 blocked = (1 + length ts > 120)\<rparr>"
    using s1 w by (intro admission_checks_in_window[where store="?s1" and c=1 and w=t1]) auto
  have "map verdict_at [1..<131] = verdict_at 1 # map (\<lambda>k. verdict_at (1 + k)) [1..<130]"
    by (rule nth_equalityI) (auto simp: nth_Cons split: nat.splits)
  moreover have "verdict_at 1 = Allowed"
    by (simp add: verdict_at_def rate_consts)
  ultimately have all: "fst (admission_checks ip (t1 # ts) store) = map verdict_at [1..<131]"
    using first rest len by (simp add: split_beta)
  have final: "snd (admission_checks ip (t1 # ts) store) ip =
                 Some \<lparr>count = 121, windowStart = t1, blocked = True\<rparr>"
    using first rest len by (simp add: split_beta)
  have "fst (checkRateLimit ip t131 (snd (admission_checks ip (t1 # ts) store))) = Allowed"
    using checkRateLimit_opens_window
      [where store="snd (admission_checks ip (t1 # ts) store)" and ip=ip and t=t131]
      final later by simp
  with all verdicts_130 show ?thesis by simp
qed

theorem rate_limit_130_then_reset_witness:
  "fst (admission_checks ''203.0.113.7'' (1000 # map (\<lambda>k. 1000 + 400 * int k) [1..<130]) Map.empty) =
     replicate 60 Allowed @ replicate 60 (Rejected rate_limit)
     @ replicate 10 (Rejected circuit_breaker)
   \<and> fst (checkRateLimit ''203.0.113.7'' 61001
         (snd (admission_checks ''203.0.113.7''
                (1000 # map (\<lambda>k. 1000 + 400 * int k) [1..<130]) Map.empty))) = Allowed"
  using rate_limit_130_then_reset
    [where store=Map.empty and ip="''203.0.113.7''" and ?t1.0=1000
       and ts="map (\<lambda>k. 1000 + 400 * int k) [1..<130]" and ?t131.0=61001]
  by (simp add: rate_consts)

section \<open>Outbound audio: backpressure and the bounded buffer\<close>

text \<open>
  C6. When the aggregator flushes while the telephony socket reports more than 64 KiB of
  unsent bytes, nothing is sent, the aggregation buffer is empty afterwards, and the
  session is left exactly as a flush of an empty buffer would leave it: nothing of the
  discarded audio remains that a later step could send.
\<close>

theorem flush_under_backpressure_discards:
  assumes "ws_bufferedAmount s > 64 * 1024"
  shows "sent_to_twilio (flushAudioAggregation s) = sent_to_twilio s
       \<and> audioAggregationBuffer (flushAudioAggregation s) = []
       \<and> flushAudioAggregation s = flushAudioAggregation (s\<lparr>audioAggregationBuffer := []\<rparr>)"
  using assms by (simp add: flushAudioAggregation_def sendToTwilio_def Let_def)

theorem flush_under_backpressure_discards_witness:
  "ws_bufferedAmount ((new_session ''203.0.113.7'' 1)
       \<lparr>streamSid := Some ''MZ01'', ws_bufferedAmount := 70000,
        audioAggregationBuffer := [''AAAA'', ''BBBB'']\<rparr>) > 64 * 1024
   \<and> sent_to_twilio (flushAudioAggregation ((new_session ''203.0.113.7'' 1)
       \<lparr>streamSid := Some ''MZ01'', ws_bufferedAmount := 70000,
        audioAggregationBuffer := [''AAAA'', ''BBBB'']\<rparr>)) = []
   \<and> audioAggregationBuffer (flushAudioAggregation ((new_session ''203.0.113.7'' 1)
       \<lparr>streamSid := Some ''MZ01'', ws_bufferedAmount := 70000,
        audioAggregationBuffer := [''AAAA'', ''BBBB'']\<rparr>)) = []
   \<and> sent_to_twilio (flushAudioAggregation ((new_session ''203.0.113.7'' 1)
       \<lparr>streamSid := Some ''MZ01'', ws_bufferedAmount := 65536,
        audioAggregationBuffer := [''AAAA'', ''BBBB'']\<rparr>)) = [''AAAABBBB'']"
proof -
  let ?s = "(new_session ''203.0.113.7'' 1)
       \<lparr>streamSid := Some ''MZ01'', ws_bufferedAmount := 70000,
        audioAggregationBuffer := [''AAAA'', ''BBBB'']\<rparr>"
  have h: "ws_bufferedAmount ?s > 64 * 1024" by simp
  have e: "sent_to_twilio ?s = []" by (simp add: new_session_def)
  note t = flush_under_backpressure_discards[OF h]
  from t have a: "sent_to_twilio (flushAudioAggregation ?s) = sent_to_twilio ?s"
    by (rule conjunct1)
  from t have b: "audioAggregationBuffer (flushAudioAggregation ?s) = []" by blast
  have c: "sent_to_twilio (flushAudioAggregation ((new_session ''203.0.113.7'' 1)
       \<lparr>streamSid := Some ''MZ01'', ws_bufferedAmount := 65536,
        audioAggregationBuffer := [''AAAA'', ''BBBB'']\<rparr>)) = [''AAAABBBB'']"
    by (simp add: flushAudioAggregation_def sendToTwilio_def new_session_def truthy_def Let_def)
  show ?thesis by (simp only: h a e b c simp_thms)
qed

lemma buffer_after_flush:
  "audioAggregationBuffer (flushAudioAggregation s) = []"
  by (simp add: flushAudioAggregation_def sendToTwilio_def Let_def)

text \<open>
  An offered frame is appended, and the tenth frame flushes the buffer; so a buffer
  that holds fewer than ten frames holds fewer than ten frames afterwards.
\<close>

lemma queueAudio_buffer:
  assumes "length (audioAggregationBuffer s) < AUDIO_AGGREGATION_MAX_CHUNKS"
  shows "audioAggregationBuffer (queueAudio payload s)
           = (if Suc (length (audioAggregationBuffer s)) = AUDIO_AGGREGATION_MAX_CHUNKS then []
              else audioAggregationBuffer s @ [payload])"
  using assms
  by (auto simp: queueAudio_def Let_def buffer_after_flush MAX_AUDIO_QUEUE_SIZE_def
      AUDIO_AGGREGATION_MAX_CHUNKS_def)

lemma aggregator_step_small:
  assumes "length (audioAggregationBuffer s) < AUDIO_AGGREGATION_MAX_CHUNKS"
  shows "length (audioAggregationBuffer (aggregator_step ev s)) < AUDIO_AGGREGATION_MAX_CHUNKS"
proof (cases ev)
  case (Offer payload)
  with assms show ?thesis
    by (simp add: queueAudio_buffer)
next
  case TimerFires
  then show ?thesis
    by (simp add: buffer_after_flush AUDIO_AGGREGATION_MAX_CHUNKS_def)
next
  case (Backpressure n)
  with assms show ?thesis by simp
qed


text \<open>The drop branch itself: at the bound, \<^verbatim>\<open>queueAudio\<close> returns at once.\<close>

lemma queueAudio_at_bound:
  "MAX_AUDIO_QUEUE_SIZE \<le> length (audioAggregationBuffer s) \<Longrightarrow> queueAudio payload s = s"
  by (simp add: queueAudio_def)

text \<open>
  The other handlers of the session leave the outbound buffer alone or empty it, so
  the buffer holds fewer than ten frames in every state a call goes through, starting
  from the empty buffer of a new session.
\<close>

lemma maybeHandleToolCall_buffer:
  "audioAggregationBuffer (maybeHandleToolCall ev s) = audioAggregationBuffer s"
  by (simp add: maybeHandleToolCall_def addHandledToolCallId_def pending_delete_def
      Let_def split_beta)

lemma response_done_buffer:
  "audioAggregationBuffer (fold response_done_item items s) = audioAggregationBuffer s"
  by (induction items arbitrary: s) (simp_all add: response_done_item_def pending_set_def)

lemma on_openai_message_small:
  assumes "length (audioAggregationBuffer s) < AUDIO_AGGREGATION_MAX_CHUNKS"
  shows "length (audioAggregationBuffer (on_openai_message ev s))
           < AUDIO_AGGREGATION_MAX_CHUNKS"
proof (cases ev)
  case (AudioDelta delta)
  with assms aggregator_step_small[OF assms, of "Offer (the delta)"] show ?thesis
    by (simp add: on_openai_message_def)
next
  case (ResponseDone out)
  with assms show ?thesis
    by (simp add: on_openai_message_def response_done_buffer split: option.splits)
qed (use assms in \<open>simp_all add: on_openai_message_def maybeHandleToolCall_buffer
      pending_set_def Let_def\<close>)

lemma telephony_handlers_small:
  assumes "length (audioAggregationBuffer s) < AUDIO_AGGREGATION_MAX_CHUNKS"
  shows "length (audioAggregationBuffer (on_media payload s)) < AUDIO_AGGREGATION_MAX_CHUNKS"
    and "length (audioAggregationBuffer (on_stop s)) < AUDIO_AGGREGATION_MAX_CHUNKS"
    and "length (audioAggregationBuffer (fst (on_start expected apiKey now msg (s, g))))
           < AUDIO_AGGREGATION_MAX_CHUNKS"
    and "length (audioAggregationBuffer (fst (on_ws_close (s, g))))
           < AUDIO_AGGREGATION_MAX_CHUNKS"
    and "length (audioAggregationBuffer (complete_tool_call body parse call s))
           < AUDIO_AGGREGATION_MAX_CHUNKS"
  using assms
  by (simp_all add: on_media_def queueInboundAudio_def flushInboundAudio_def sendToOpenAI_def
      on_stop_def closeOpenAI_def on_start_def ws_close_def startOpenAI_def on_ws_close_def
      complete_tool_call_def Let_def AUDIO_AGGREGATION_MAX_CHUNKS_def)



section \<open>Admission of media-stream connections\<close>

text \<open>
  C3, the claim as stated. With no secret configured, six upgrade attempts from one
  address: the first five are accepted, the sixth is destroyed by the connection limit,
  whatever its token. So not every candidate is accepted in open mode.
\<close>

theorem open_mode_counterexample:
  "fst (on_upgrades None
         (map (\<lambda>ws. (1000, ws, stream_request ''203.0.113.7'' None)) [1, 2, 3, 4, 5, 6])
         new_server)
   = [Upgraded, Upgraded, Upgraded, Upgraded, Upgraded, Destroyed]"
  by (simp add: on_upgrade_def new_server_def stream_request_def checkReconnectCooldown_def
      truthy_def truthy_time_def canOpenWsConnection_def trackWsConnection_def
      trackRejection_def WS_MAX_CONNECTIONS_PER_IP_def Let_def)

text \<open>
  C3, amended. On the stream path: when a secret is configured, an attempt whose token is
  missing or differs from it is destroyed in the upgrade handler (no upgrade, hence no
  session and no audio), and the rejection is recorded; when no secret is configured, no
  attempt is rejected for its token, and every attempt that passes the rejection
  cooldown and the connection limit is upgraded.
\<close>

theorem token_gate_at_upgrade:
  assumes "pathname req = ''/twilio/stream''"
  shows "(truthy expected \<and> (\<not> truthy (token req) \<or> token req \<noteq> expected)
            \<longrightarrow> on_upgrade expected now ws req g
                  = (Destroyed, trackRejection (clientIp req) now g))
       \<and> (\<not> truthy expected \<and> checkReconnectCooldown (clientIp req) None now g = Pass
            \<and> canOpenWsConnection (clientIp req) g
            \<longrightarrow> on_upgrade expected now ws req g
                  = (Upgraded, trackWsConnection (clientIp req) ws g))"
proof (intro conjI impI)
  assume "truthy expected \<and> (\<not> truthy (token req) \<or> token req \<noteq> expected)"
  with assms show "on_upgrade expected now ws req g
      = (Destroyed, trackRejection (clientIp req) now g)"
    by (auto simp: on_upgrade_def)
next
  assume "\<not> truthy expected \<and> checkReconnectCooldown (clientIp req) None now g = Pass
      \<and> canOpenWsConnection (clientIp req) g"
  with assms show "on_upgrade expected now ws req g
      = (Upgraded, trackWsConnection (clientIp req) ws g)"
    by (simp add: on_upgrade_def)
qed

theorem token_gate_at_upgrade_witness:
  "on_upgrade (Some ''s3cret'') 1000 1 (stream_request ''203.0.113.7'' None) new_server
     = (Destroyed, trackRejection ''203.0.113.7'' 1000 new_server)
   \<and> on_upgrade (Some ''s3cret'') 1000 1 (stream_request ''203.0.113.7'' (Some ''guess'')) new_server
     = (Destroyed, trackRejection ''203.0.113.7'' 1000 new_server)
   \<and> on_upgrade None 1000 1 (stream_request ''203.0.113.7'' (Some ''guess'')) new_server
     = (Upgraded, trackWsConnection ''203.0.113.7'' 1 new_server)"
proof -
  have p: "pathname (stream_request ''203.0.113.7'' tok) = ''/twilio/stream''" for tok
    by (simp add: stream_request_def)
  have c: "checkReconnectCooldown ''203.0.113.7'' None 1000 new_server = Pass"
    by (simp add: checkReconnectCooldown_def new_server_def truthy_time_def truthy_def)
  have o: "canOpenWsConnection ''203.0.113.7'' new_server"
    by (simp add: canOpenWsConnection_def new_server_def)
  have t: "truthy (Some ''s3cret'')" "\<not> truthy None"
    by (simp_all add: truthy_def)
  have k: "clientIp (stream_request ''203.0.113.7'' tok) = ''203.0.113.7''"
    "token (stream_request ''203.0.113.7'' tok) = tok" for tok
    by (simp_all add: stream_request_def)
  show ?thesis
    using token_gate_at_upgrade[OF p, of "Some ''s3cret''" None 1000 1 new_server]
      token_gate_at_upgrade[OF p, of "Some ''s3cret''" "Some ''guess''" 1000 1 new_server]
      token_gate_at_upgrade[OF p, of None "Some ''guess''" 1000 1 new_server]
      c o t
    by (simp add: k)
qed

section \<open>Reconnect cooldowns\<close>

text \<open>
  Every attempt that the upgrade handler destroys on the stream path stamps the
  address, and while the stamp is less than 30 seconds old every further attempt from
  the address is destroyed before its token is looked at (and stamps the address
  again). The stamp is a clock reading, which is not zero.
\<close>

lemma rejection_starts_cooldown:
  assumes "pathname req = ''/twilio/stream''"
    and "fst (on_upgrade expected now ws req g) = Destroyed"
  shows "ipRejectionCooldowns (snd (on_upgrade expected now ws req g)) (clientIp req) = Some now"
  using assms by (auto simp: on_upgrade_def trackRejection_def split: if_splits)

lemma cooldown_rejects_upgrade:
  assumes "pathname req = ''/twilio/stream''"
    and "ipRejectionCooldowns g (clientIp req) = Some t0" and "t0 \<noteq> 0"
    and "now - t0 < WS_REJECTED_COOLDOWN_MS"
  shows "on_upgrade expected now ws req g = (Destroyed, trackRejection (clientIp req) now g)"
  using assms by (simp add: on_upgrade_def checkReconnectCooldown_def truthy_time_def)

text \<open>
  C4. The stamp per address and stream is written by the \<^verbatim>\<open>start\<close> handler, and
  \<^verbatim>\<open>checkReconnectCooldown\<close> would answer \<^verbatim>\<open>stream_cooldown\<close> for it during 60 seconds.
  But the upgrade handler asks without a stream identifier and the \<^verbatim>\<open>start\<close> handler
  does not ask at all: two seconds after a first stream \<^verbatim>\<open>MZ01\<close> from an address, a second
  connection from that address is upgraded and its \<^verbatim>\<open>start\<close> for the same \<^verbatim>\<open>MZ01\<close> opens
  the speech-AI leg.
\<close>

theorem stream_cooldown_not_enforced:
  "(let ip = ''203.0.113.7'';
        msg = \<lparr>start_streamSid = Some ''MZ01'', cp_token = None\<rparr>;
        (out1, g1) = on_upgrade None 1000 1 (stream_request ip None) new_server;
        (s1, g2) = on_start None (Some ''sk-key'') 1000 msg (new_session ip 1, g1);
        (out2, g3) = on_upgrade None 3000 2 (stream_request ip None) g2;
        (s2, g4) = on_start None (Some ''sk-key'') 3000 msg (new_session ip 2, g3)
    in out1 = Upgraded
     \<and> checkReconnectCooldown ip (Some ''MZ01'') 3000 g2 = Wait stream_cooldown 58000
     \<and> out2 = Upgraded
     \<and> ws_close_calls s2 = 0 \<and> openaiWs s2 = Some CONNECTING)"
  by (simp add: on_upgrade_def new_server_def stream_request_def checkReconnectCooldown_def
      truthy_def truthy_time_def canOpenWsConnection_def trackWsConnection_def
      trackRejection_def trackConnectionAttempt_def WS_MAX_CONNECTIONS_PER_IP_def Let_def
      on_start_def new_session_def startOpenAI_def stream_key_def
      RECONNECT_COOLDOWN_MS_def WS_REJECTED_COOLDOWN_MS_def)

section \<open>The in-band token check of the start event\<close>

text \<open>
  C10. With or without a configured secret, a \<^verbatim>\<open>start\<close> event that carries no token is
  accepted: the handler goes on to \<^verbatim>\<open>startOpenAI\<close> and records no rejection. The handler
  calls \<^verbatim>\<open>ws.close()\<close> exactly when a secret is configured and the event carries a token
  that differs from it; then the speech-AI leg is left as it was, and the rejection
  cooldown is recorded for the connection's address.
\<close>

theorem start_token_check:
  "(\<not> truthy (cp_token msg) \<longrightarrow>
      fst (on_start expected apiKey now msg (s, g))
        = startOpenAI apiKey (s\<lparr>streamSid := start_streamSid msg\<rparr>)
      \<and> ipRejectionCooldowns (snd (on_start expected apiKey now msg (s, g)))
          = ipRejectionCooldowns g)
   \<and> (ws_close_calls (fst (on_start expected apiKey now msg (s, g))) \<noteq> ws_close_calls s
        \<longleftrightarrow> truthy expected \<and> truthy (cp_token msg) \<and> cp_token msg \<noteq> expected)
   \<and> (truthy expected \<and> truthy (cp_token msg) \<and> cp_token msg \<noteq> expected \<longrightarrow>
        openaiStarted (fst (on_start expected apiKey now msg (s, g))) = openaiStarted s
      \<and> openaiWs (fst (on_start expected apiKey now msg (s, g))) = openaiWs s
      \<and> (ws_clientIp s \<noteq> [] \<longrightarrow>
           ipRejectionCooldowns (snd (on_start expected apiKey now msg (s, g)))
             (ws_clientIp s) = Some now))"
proof (intro conjI impI)
  assume "\<not> truthy (cp_token msg)"
  then show "fst (on_start expected apiKey now msg (s, g))
      = startOpenAI apiKey (s\<lparr>streamSid := start_streamSid msg\<rparr>)"
    by (simp add: on_start_def Let_def)
next
  assume "\<not> truthy (cp_token msg)"
  then show "ipRejectionCooldowns (snd (on_start expected apiKey now msg (s, g)))
      = ipRejectionCooldowns g"
    by (simp add: on_start_def Let_def trackConnectionAttempt_def)
next
  show "ws_close_calls (fst (on_start expected apiKey now msg (s, g))) \<noteq> ws_close_calls s
      \<longleftrightarrow> truthy expected \<and> truthy (cp_token msg) \<and> cp_token msg \<noteq> expected"
    by (auto simp: on_start_def Let_def ws_close_def startOpenAI_def)
next
  assume r: "truthy expected \<and> truthy (cp_token msg) \<and> cp_token msg \<noteq> expected"
  then show "openaiStarted (fst (on_start expected apiKey now msg (s, g))) = openaiStarted s"
    and "openaiWs (fst (on_start expected apiKey now msg (s, g))) = openaiWs s"
    by (simp_all add: on_start_def Let_def ws_close_def)
  assume "ws_clientIp s \<noteq> []"
  with r show "ipRejectionCooldowns (snd (on_start expected apiKey now msg (s, g)))
      (ws_clientIp s) = Some now"
    by (simp add: on_start_def Let_def trackRejection_def)
qed

theorem start_token_check_witness:
  "fst (on_start (Some ''s3cret'') (Some ''sk-key'') 1000
          \<lparr>start_streamSid = Some ''MZ01'', cp_token = None\<rparr>
          (new_session ''203.0.113.7'' 1, new_server))
     = (new_session ''203.0.113.7'' 1)
          \<lparr>streamSid := Some ''MZ01'', openaiStarted := True, openaiWs := Some CONNECTING\<rparr>
   \<and> ws_close_calls (fst (on_start (Some ''s3cret'') (Some ''sk-key'') 1000
          \<lparr>start_streamSid = Some ''MZ01'', cp_token = Some ''guess''\<rparr>
          (new_session ''203.0.113.7'' 1, new_server))) \<noteq> 0
   \<and> openaiWs (fst (on_start (Some ''s3cret'') (Some ''sk-key'') 1000
          \<lparr>start_streamSid = Some ''MZ01'', cp_token = Some ''guess''\<rparr>
          (new_session ''203.0.113.7'' 1, new_server))) = None
   \<and> ipRejectionCooldowns (snd (on_start (Some ''s3cret'') (Some ''sk-key'') 1000
          \<lparr>start_streamSid = Some ''MZ01'', cp_token = Some ''guess''\<rparr>
          (new_session ''203.0.113.7'' 1, new_server))) ''203.0.113.7'' = Some 1000"
proof -
  let ?s = "new_session ''203.0.113.7'' 1"
  let ?none = "\<lparr>start_streamSid = Some ''MZ01'', cp_token = None\<rparr>"
  let ?bad = "\<lparr>start_streamSid = Some ''MZ01'', cp_token = Some ''guess''\<rparr>"
  have f: "ws_clientIp ?s = ''203.0.113.7''" "ws_close_calls ?s = 0" "openaiWs ?s = None"
    by (simp_all add: new_session_def)
  have t: "\<not> truthy (cp_token ?none)" "truthy (Some ''s3cret'')" "truthy (cp_token ?bad)"
    "cp_token ?bad \<noteq> Some ''s3cret''"
    by (simp_all add: truthy_def)
  have st: "startOpenAI (Some ''sk-key'') (?s\<lparr>streamSid := start_streamSid ?none\<rparr>)
          = ?s\<lparr>streamSid := Some ''MZ01'', openaiStarted := True, openaiWs := Some CONNECTING\<rparr>"
    by (simp add: startOpenAI_def new_session_def truthy_def)
  note a = start_token_check[of ?none "Some ''s3cret''" "Some ''sk-key''" 1000 ?s new_server]
  note b = start_token_check[of ?bad "Some ''s3cret''" "Some ''sk-key''" 1000 ?s new_server]
  from a t(1) have 1: "fst (on_start (Some ''s3cret'') (Some ''sk-key'') 1000 ?none (?s, new_server))
      = startOpenAI (Some ''sk-key'') (?s\<lparr>streamSid := start_streamSid ?none\<rparr>)"
    by blast
  from b t(2,3,4) have 2: "ws_close_calls (fst (on_start (Some ''s3cret'') (Some ''sk-key'') 1000
       ?bad (?s, new_server))) \<noteq> ws_close_calls ?s"
    by blast
  from b t(2,3,4) have 3: "openaiWs (fst (on_start (Some ''s3cret'') (Some ''sk-key'') 1000
       ?bad (?s, new_server))) = openaiWs ?s"
    by blast
  from b t(2,3,4) f(1) have 4: "ipRejectionCooldowns (snd (on_start (Some ''s3cret'')
       (Some ''sk-key'') 1000 ?bad (?s, new_server))) ''203.0.113.7'' = Some 1000"
    by (metis list.distinct(1))
  from 1 2 3 4 show ?thesis
    unfolding st f by blast
qed

section \<open>Teardown\<close>













section \<open>Returning tool results\<close>

text \<open>
  C9, the claim as stated. A tool call is dispatched on an active session; before the
  executor settles, the telephony leg sends \<^verbatim>\<open>stop\<close>, which closes the speech-AI leg.
  When the tool then returns, \<^verbatim>\<open>sendToOpenAI\<close> finds no open socket and the result is not
  written anywhere.
\<close>

theorem result_after_stop_counterexample:
  "(let s1 = (new_session ''203.0.113.7'' 1)
               \<lparr>streamSid := Some ''MZ01'', openaiStarted := True, openaiWs := Some OPEN\<rparr>;
        s2 = on_openai_message
               (FunctionCallArgumentsDone (Some ''call_1'') (Some ''send_followup_sms'')
                  (Some ''{}'')) s1;
        s3 = on_stop s2
    in dispatched s2 = [\<lparr>call_id = ''call_1'', fn_name = ''send_followup_sms'', args_str = ''{}''\<rparr>]
     \<and> sent_to_openai (complete_tool_call (\<lambda>nm args. Inr (JObj [(''success'', JBool True)]))
          (\<lambda>str. Some (JObj [])) (hd (dispatched s2)) s3) = [])"
  by (simp add: new_session_def on_openai_message_def maybeHandleToolCall_def call_info_def
      or_empty_def truthy_def pending_delete_def addHandledToolCallId_def Let_def
      on_stop_def flushInboundAudio_def closeOpenAI_def flushAudioAggregation_def
      complete_tool_call_def sendToOpenAI_def)

text \<open>
  C9, amended. For every tool name and argument value the executor boundary yields a
  payload: the tool's value when it returns, \<^verbatim>\<open>{error: message}\<close> when it throws, and
  \<^verbatim>\<open>{error: "Unknown tool: ..."}\<close> for a name that is no tool. If the speech-AI socket is
  open when the executor settles, one \<^verbatim>\<open>function_call_output\<close> message with the call's
  identifier and that payload is sent and nothing else in the session changes, so a
  failing tool ends no session; otherwise the payload is discarded and the session is
  unchanged.
\<close>

theorem tool_result_always_returned:
  "complete_tool_call body parse call s
     = (if openaiWs s = Some OPEN
        then s\<lparr>sent_to_openai := sent_to_openai s @
                 [FunctionCallOutput (call_id call)
                    (tool_result body (fn_name call) (tool_args parse (args_str call)))]\<rparr>
        else s)
   \<and> (\<forall>result. executeTool body nm args = Inr result \<longrightarrow>
         tool_result body nm args = result)
   \<and> (\<forall>err. executeTool body nm args = Inl err \<longrightarrow>
         tool_result body nm args = JObj [(''error'', JStr (error_text err))])
   \<and> (nm \<notin> set tool_names \<longrightarrow>
        tool_result body nm args = JObj [(''error'', JStr (''Unknown tool: '' @ nm))])"
  by (simp add: complete_tool_call_def sendToOpenAI_def tool_result_def executeTool_def
      error_text_def new_Error_def truthy_def)

theorem tool_result_always_returned_witness:
  "complete_tool_call (\<lambda>nm args. Inr JNull) (\<lambda>str. None)
       \<lparr>call_id = ''call_1'', fn_name = ''reboot'', args_str = ''{}''\<rparr>
       ((new_session ''203.0.113.7'' 1)\<lparr>openaiWs := Some OPEN\<rparr>)
     = (new_session ''203.0.113.7'' 1)
         \<lparr>openaiWs := Some OPEN,
          sent_to_openai := [FunctionCallOutput ''call_1''
                               (JObj [(''error'', JStr ''Unknown tool: reboot'')])]\<rparr>
   \<and> tool_result (\<lambda>nm args. Inr JNull) ''send_followup_sms'' (JObj []) = JNull
   \<and> tool_result (\<lambda>nm args. Inl \<lparr>message = Some ''HTTP 500'', as_string = ''Error: HTTP 500''\<rparr>)
        ''email_search'' (JObj []) = JObj [(''error'', JStr ''HTTP 500'')]"
proof -
  let ?s = "(new_session ''203.0.113.7'' 1)\<lparr>openaiWs := Some OPEN\<rparr>"
  let ?body = "\<lambda>(nm :: string) (args :: json). (Inr JNull :: thrown + json)"
  let ?fail = "\<lambda>(nm :: string) (args :: json).
      (Inl \<lparr>message = Some ''HTTP 500'', as_string = ''Error: HTTP 500''\<rparr> :: thrown + json)"
  let ?parse = "\<lambda>str :: string. (None :: json option)"
  let ?call = "\<lparr>call_id = ''call_1'', fn_name = ''reboot'', args_str = ''{}''\<rparr>"
  have h: "openaiWs ?s = Some OPEN" by simp
  have u: "''reboot'' \<notin> set tool_names" by (simp add: tool_names_def)
  note t = tool_result_always_returned[of ?body ?parse ?call ?s "''reboot''"
      "tool_args ?parse ''{}''"]
  from t h have a: "complete_tool_call ?body ?parse ?call ?s
      = ?s\<lparr>sent_to_openai := sent_to_openai ?s @
            [FunctionCallOutput (call_id ?call)
               (tool_result ?body (fn_name ?call) (tool_args ?parse (args_str ?call)))]\<rparr>"
    by presburger
  from t u have b: "tool_result ?body ''reboot'' (tool_args ?parse ''{}'')
      = JObj [(''error'', JStr (''Unknown tool: '' @ ''reboot''))]"
    by blast
  have k: "executeTool ?body ''send_followup_sms'' (JObj []) = Inr JNull"
    by (simp add: executeTool_def tool_names_def)
  from tool_result_always_returned[of ?body ?parse ?call ?s "''send_followup_sms''" "JObj []"] k
  have c: "tool_result ?body ''send_followup_sms'' (JObj []) = JNull"
    by blast
  have k': "executeTool ?fail ''email_search'' (JObj [])
      = Inl \<lparr>message = Some ''HTTP 500'', as_string = ''Error: HTTP 500''\<rparr>"
    by (simp add: executeTool_def tool_names_def)
  from tool_result_always_returned[of ?fail ?parse ?call ?s "''email_search''" "JObj []"] k'
  have "tool_result ?fail ''email_search'' (JObj [])
      = JObj [(''error'', JStr (error_text
          \<lparr>message = Some ''HTTP 500'', as_string = ''Error: HTTP 500''\<rparr>))]"
    by blast
  then have d: "tool_result ?fail ''email_search'' (JObj []) = JObj [(''error'', JStr ''HTTP 500'')]"
    by (simp add: error_text_def truthy_def)
  show ?thesis
    unfolding a c d by (simp add: b new_session_def)
qed

section \<open>The tool-call aggregator\<close>

lemma evict_oldest_eq:
  "evict_oldest order ids =
     (drop (length order - 99) order, ids - set (take (length order - 99) order))"
proof (induction order arbitrary: ids)
  case Nil
  then show ?case by simp
next
  case (Cons x rest)
  show ?case
  proof (cases "length (x # rest) \<ge> MAX_HANDLED_TOOL_IDS")
    case True
    then have "Suc (length rest) - 99 = Suc (length rest - 99)"
      by (simp add: MAX_HANDLED_TOOL_IDS_def)
    with True Cons.IH[of "ids - {x}"] show ?thesis by auto
  next
    case False
    then show ?thesis by (simp add: MAX_HANDLED_TOOL_IDS_def)
  qed
qed

lemma addHandledToolCallId_known:
  "callId \<in> handledToolCallIds s \<Longrightarrow> addHandledToolCallId callId s = (False, s)"
  by (simp add: addHandledToolCallId_def)

lemma addHandledToolCallId_new:
  "callId \<notin> handledToolCallIds s \<Longrightarrow>
   addHandledToolCallId callId s =
     (True, s\<lparr>handledToolCallIds :=
                 insert callId (handledToolCallIds s
                   - set (take (length (handledToolCallOrder s) - 99) (handledToolCallOrder s))),
               handledToolCallOrder :=
                 drop (length (handledToolCallOrder s) - 99) (handledToolCallOrder s) @ [callId]\<rparr>)"
  by (simp add: addHandledToolCallId_def evict_oldest_eq)

lemma same_history_refl [simp]: "same_history s s"
  by (simp add: same_history_def)

lemma same_history_trans:
  "same_history s s' \<Longrightarrow> same_history s' s'' \<Longrightarrow> same_history s s''"
  by (simp add: same_history_def)

lemma queueAudio_history: "same_history s (queueAudio payload s)"
  by (simp add: same_history_def queueAudio_def flushAudioAggregation_def sendToTwilio_def Let_def)

lemma pending_set_history: "same_history s (pending_set cid entry s)"
  by (simp add: same_history_def pending_set_def)

lemma response_done_history: "same_history s (fold response_done_item items s)"
proof (induction items arbitrary: s)
  case Nil
  show ?case by simp
next
  case (Cons item items)
  have "same_history s (response_done_item item s)"
    by (simp add: response_done_item_def pending_set_history)
  with Cons[of "response_done_item item s"] show ?case
    by (simp add: same_history_def)
qed

text \<open>\<^verbatim>\<open>maybeHandleToolCall\<close> in closed form.\<close>

lemma maybeHandleToolCall_step:
  assumes "call_info ev = (callId, fnName, argsStr)"
  shows "maybeHandleToolCall ev s =
     (if fnName = [] \<or> \<not> truthy callId \<or> the callId \<in> handledToolCallIds s
      then (if fnName = [] \<or> \<not> truthy callId then s else pending_delete (the callId) s)
      else (pending_delete (the callId) s)
             \<lparr>handledToolCallIds :=
                 insert (the callId) (handledToolCallIds s
                   - set (take (length (handledToolCallOrder s) - 99) (handledToolCallOrder s))),
              handledToolCallOrder :=
                 drop (length (handledToolCallOrder s) - 99) (handledToolCallOrder s) @ [the callId],
              dispatched := dispatched s @
                 [\<lparr>call_id = the callId, fn_name = fnName, args_str = argsStr\<rparr>]\<rparr>)"
proof -
  have p: "handledToolCallIds (pending_delete c s) = handledToolCallIds s"
    "handledToolCallOrder (pending_delete c s) = handledToolCallOrder s"
    "dispatched (pending_delete c s) = dispatched s" for c
    by (simp_all add: pending_delete_def)
  show ?thesis
  proof (cases "fnName = [] \<or> \<not> truthy callId")
    case True
    with assms show ?thesis by (auto simp: maybeHandleToolCall_def)
  next
    case False
    show ?thesis
    proof (cases "the callId \<in> handledToolCallIds s")
      case True
      then have "addHandledToolCallId (the callId) (pending_delete (the callId) s)
          = (False, pending_delete (the callId) s)"
        by (simp add: addHandledToolCallId_known p)
      with assms False True show ?thesis by (simp add: maybeHandleToolCall_def)
    next
      case notin: False
      then have "the callId \<notin> handledToolCallIds (pending_delete (the callId) s)"
        by (simp add: p)
      from addHandledToolCallId_new[OF this] assms False notin show ?thesis
        by (simp add: maybeHandleToolCall_def p)
    qed
  qed
qed

lemma delta_history:
  "same_history s (on_openai_message (FunctionCallArgumentsDelta cid delta) s)"
  by (simp add: on_openai_message_def pending_set_history Let_def)

lemma deltas_history:
  "same_history s (on_openai_messages (map (FunctionCallArgumentsDelta cid) deltas) s)"
proof (induction deltas arbitrary: s)
  case Nil
  show ?case by (simp add: on_openai_messages_def)
next
  case (Cons d deltas)
  from delta_history[of s cid d]
    Cons[of "on_openai_message (FunctionCallArgumentsDelta cid d) s"]
  show ?case
    by (auto simp: on_openai_messages_def intro: same_history_trans)
qed

lemma arguments_done_dispatch:
  "dispatched (on_openai_message (FunctionCallArgumentsDone (Some cid) nm args) s) =
     dispatched s @
       (if or_empty nm \<noteq> [] \<and> cid \<noteq> [] \<and> cid \<notin> handledToolCallIds s
        then [\<lparr>call_id = cid, fn_name = or_empty nm, args_str = or_empty args\<rparr>] else [])"
proof -
  have c: "call_info (FunctionCallArgumentsDone (Some cid) nm args)
      = (Some cid, or_empty nm, or_empty args)"
    by (simp add: call_info_def)
  show ?thesis
    by (simp add: on_openai_message_def maybeHandleToolCall_step[OF c] truthy_def
        pending_delete_def)
qed

lemma output_item_done_dispatch:
  "dispatched (on_openai_message (OutputItemDone (Some (function_call_item cid nm args))) s) =
     dispatched s @
       (if or_empty nm \<noteq> [] \<and> cid \<noteq> [] \<and> cid \<notin> handledToolCallIds s
        then [\<lparr>call_id = cid, fn_name = or_empty nm, args_str = or_empty args\<rparr>] else [])"
proof -
  have c: "call_info (OutputItemDone (Some (function_call_item cid nm args)))
      = (Some cid, or_empty nm, or_empty args)"
    by (simp add: call_info_def is_function_call_def function_call_item_def)
  have f: "is_function_call (Some (function_call_item cid nm args))"
    by (simp add: is_function_call_def function_call_item_def)
  show ?thesis
    by (simp add: on_openai_message_def f maybeHandleToolCall_step[OF c] truthy_def
        pending_delete_def pending_set_def)
qed

text \<open>
  C1. From any session state, after any number of partial-argument events for a call
  identifier followed by an authoritative event for it, in either of its two forms:
  what has been handed to the executor is what had been before, plus, when the event
  names a function and the identifier is not in the handled set, exactly one invocation
  whose argument text is the authoritative event's \<^verbatim>\<open>arguments\<close> (the empty text when the
  field is missing). The accumulated partial text has no part in it.
\<close>

theorem authoritative_arguments_dispatched:
  "(let partial = map (FunctionCallArgumentsDelta (Some cid)) deltas;
        outcome = dispatched s @
          (if or_empty nm \<noteq> [] \<and> cid \<noteq> [] \<and> cid \<notin> handledToolCallIds s
           then [\<lparr>call_id = cid, fn_name = or_empty nm, args_str = or_empty args\<rparr>] else [])
    in dispatched (on_openai_messages
         (partial @ [FunctionCallArgumentsDone (Some cid) nm args]) s) = outcome
     \<and> dispatched (on_openai_messages
         (partial @ [OutputItemDone (Some (function_call_item cid nm args))]) s) = outcome)"
proof -
  let ?s1 = "on_openai_messages (map (FunctionCallArgumentsDelta (Some cid)) deltas) s"
  have h: "dispatched ?s1 = dispatched s" "handledToolCallIds ?s1 = handledToolCallIds s"
    using deltas_history[of s "Some cid" deltas] by (simp_all add: same_history_def)
  have a: "on_openai_messages (xs @ [e]) s = on_openai_message e (on_openai_messages xs s)"
    for xs e
    by (simp add: on_openai_messages_def)
  show ?thesis
    by (simp add: Let_def a arguments_done_dispatch output_item_done_dispatch h)
qed

theorem authoritative_arguments_dispatched_witness:
  "map_of (pendingFunctionCalls (on_openai_messages
       [FunctionCallArgumentsDelta (Some ''C1'') (Some ''{phone''),
        FunctionCallArgumentsDelta (Some ''C1'') (Some ''_number:555-0002}'')]
       (new_session ''203.0.113.7'' 1))) ''C1''
     = Some \<lparr>name = [], arguments = ''{phone_number:555-0002}''\<rparr>
   \<and> dispatched (on_openai_messages
       [FunctionCallArgumentsDelta (Some ''C1'') (Some ''{phone''),
        FunctionCallArgumentsDelta (Some ''C1'') (Some ''_number:555-0002}''),
        OutputItemDone (Some (function_call_item ''C1'' (Some ''lookup'')
          (Some ''{phone_number:555-0002}'')))]
       (new_session ''203.0.113.7'' 1))
     = [\<lparr>call_id = ''C1'', fn_name = ''lookup'', args_str = ''{phone_number:555-0002}''\<rparr>]"
proof
  show "map_of (pendingFunctionCalls (on_openai_messages
       [FunctionCallArgumentsDelta (Some ''C1'') (Some ''{phone''),
        FunctionCallArgumentsDelta (Some ''C1'') (Some ''_number:555-0002}'')]
       (new_session ''203.0.113.7'' 1))) ''C1''
     = Some \<lparr>name = [], arguments = ''{phone_number:555-0002}''\<rparr>"
    by (simp add: on_openai_messages_def on_openai_message_def new_session_def truthy_def
        pending_has_def pending_set_def or_empty_def MAX_PENDING_FUNCTION_CALLS_def Let_def)
  show "dispatched (on_openai_messages
       [FunctionCallArgumentsDelta (Some ''C1'') (Some ''{phone''),
        FunctionCallArgumentsDelta (Some ''C1'') (Some ''_number:555-0002}''),
        OutputItemDone (Some (function_call_item ''C1'' (Some ''lookup'')
          (Some ''{phone_number:555-0002}'')))]
       (new_session ''203.0.113.7'' 1))
     = [\<lparr>call_id = ''C1'', fn_name = ''lookup'', args_str = ''{phone_number:555-0002}''\<rparr>]"
    using authoritative_arguments_dispatched
      [of "''C1''" "[Some ''{phone'', Some ''_number:555-0002}'']"
          "new_session ''203.0.113.7'' 1" "Some ''lookup''" "Some ''{phone_number:555-0002}''"]
    by (simp add: Let_def or_empty_def new_session_def)
qed

subsection \<open>At most one dispatch per identifier, within the bound of the handled set\<close>

lemma on_openai_message_history:
  "same_history s (on_openai_message ev s)
   \<or> (\<exists>call. call_id call \<noteq> [] \<and> dispatches call s (on_openai_message ev s))"
proof (cases ev)
  case (AudioDelta d)
  then show ?thesis by (simp add: on_openai_message_def queueAudio_history)
next
  case (FunctionCallArgumentsDelta cid d)
  then show ?thesis using delta_history by simp
next
  case (OutputItemAdded item)
  then show ?thesis by (simp add: on_openai_message_def pending_set_history Let_def)
next
  case (OutputItemDone item)
  obtain c n a where ci: "call_info ev = (c, n, a)" by (cases "call_info ev")
  let ?s0 = "if truthy (item_call_id (the item))
             then pending_set (the (item_call_id (the item)))
                    \<lparr>name = or_empty (item_name (the item)),
                     arguments = or_empty (item_arguments (the item))\<rparr> s
             else s"
  have h: "same_history s ?s0" by (simp add: pending_set_history)
  show ?thesis
  proof (cases "is_function_call item")
    case False
    with OutputItemDone show ?thesis by (simp add: on_openai_message_def)
  next
    case True
    with OutputItemDone have e: "on_openai_message ev s = maybeHandleToolCall ev ?s0"
      by (simp add: on_openai_message_def)
    show ?thesis
      using h unfolding e maybeHandleToolCall_step[OF ci]
      by (auto simp: same_history_def dispatches_def pending_delete_def truthy_def
          split: option.splits)
  qed
next
  case (FunctionCallArgumentsDone cid nm args)
  obtain c n a where ci: "call_info ev = (c, n, a)" by (cases "call_info ev")
  from FunctionCallArgumentsDone have e: "on_openai_message ev s = maybeHandleToolCall ev s"
    by (simp add: on_openai_message_def)
  show ?thesis
    unfolding e maybeHandleToolCall_step[OF ci]
    by (auto simp: same_history_def dispatches_def pending_delete_def truthy_def
        split: option.splits)
next
  case (ResponseDone out)
  then show ?thesis
    by (simp add: on_openai_message_def response_done_history split: option.splits)
next
  case OtherEvent
  then show ?thesis by (simp add: on_openai_message_def)
qed

lemma lastn_snoc: "lastn (Suc n) (xs @ [x]) = lastn n xs @ [x]"
  by (simp add: lastn_def)

lemma lastn_lastn: "m \<le> n \<Longrightarrow> lastn m (lastn n xs) = lastn m xs"
proof -
  assume "m \<le> n"
  then have "length xs - (length xs - n + m) + (length xs - n) = length xs - m" by arith
  then show ?thesis by (simp add: lastn_def)
qed

lemma far_apart_snoc:
  assumes "far_apart ids" and "x \<notin> set (lastn 100 ids)"
  shows "far_apart (ids @ [x])"
  unfolding far_apart_def
proof (intro allI impI)
  fix j i
  assume j: "j < length (ids @ [x])" and i: "i < j" and eq: "(ids @ [x]) ! i = (ids @ [x]) ! j"
  show "100 < j - i"
  proof (cases "j < length ids")
    case True
    with i eq assms(1) show ?thesis by (auto simp: far_apart_def nth_append)
  next
    case False
    with j have jl: "j = length ids" by simp
    with i eq have xi: "ids ! i = x" by (simp add: nth_append)
    show ?thesis
    proof (rule ccontr)
      assume "\<not> 100 < j - i"
      with jl i have "length ids - 100 \<le> i" by arith
      then have "ids ! i \<in> set (drop (length ids - 100) ids)"
        using i jl by (auto simp: in_set_conv_nth intro!: exI[of _ "i - (length ids - 100)"])
      with xi assms(2) show False by (simp add: lastn_def)
    qed
  qed
qed

lemma handled_inv_step:
  assumes "handled_inv s"
  shows "handled_inv (on_openai_message ev s)"
proof -
  let ?s' = "on_openai_message ev s"
  from on_openai_message_history[of s ev] show ?thesis
  proof
    assume "same_history s ?s'"
    with assms show ?thesis
      unfolding handled_inv_def same_history_def dispatched_ids_def by metis
  next
    assume "\<exists>call. call_id call \<noteq> [] \<and> dispatches call s ?s'"
    then obtain call where d: "dispatches call s ?s'" by blast
    let ?order = "handledToolCallOrder s" and ?c = "call_id call"
    have inv: "handledToolCallIds s = set ?order" "distinct ?order"
      "?order = lastn 100 (dispatched_ids s)" "far_apart (dispatched_ids s)"
      using assms unfolding handled_inv_def by blast+
    from d have new: "?c \<notin> set ?order" using inv(1) by (simp add: dispatches_def)
    have o99: "drop (length ?order - 99) ?order = lastn 99 (dispatched_ids s)"
      using lastn_lastn[of 99 100 "dispatched_ids s"] inv(3) by (simp add: lastn_def)
    have ids': "dispatched_ids ?s' = dispatched_ids s @ [?c]"
      using d by (simp add: dispatches_def dispatched_ids_def)
    have order': "handledToolCallOrder ?s' = lastn 100 (dispatched_ids ?s')"
      using d o99 lastn_snoc[of 99 "dispatched_ids s" ?c] ids'
      by (simp add: dispatches_def)
    have "set ?order - set (take (length ?order - 99) ?order)
        = set (drop (length ?order - 99) ?order)"
      using inv(2) by (metis append_take_drop_id distinct_append set_append Diff_cancel
          Un_Diff Diff_triv Un_empty_left inf_commute)
    then have set': "handledToolCallIds ?s' = set (handledToolCallOrder ?s')"
      using d inv(1) by (simp add: dispatches_def)
    have "distinct (drop (length ?order - 99) ?order)" using inv(2) by simp
    moreover have "?c \<notin> set (drop (length ?order - 99) ?order)"
      using new by (meson in_set_dropD)
    ultimately have dist': "distinct (handledToolCallOrder ?s')"
      using d by (simp add: dispatches_def)
    have far': "far_apart (dispatched_ids ?s')"
      unfolding ids' using inv(4) new inv(3) by (intro far_apart_snoc) simp_all
    from set' dist' order' far' show ?thesis by (simp add: handled_inv_def)
  qed
qed

lemma handled_inv_run:
  "handled_inv s \<Longrightarrow> handled_inv (on_openai_messages evs s)"
  unfolding on_openai_messages_def
  by (induction evs arbitrary: s) (simp_all add: handled_inv_step)

lemma handled_inv_fresh:
  assumes "dispatched s = []" "handledToolCallIds s = {}" "handledToolCallOrder s = []"
  shows "handled_inv s"
  using assms by (simp add: handled_inv_def dispatched_ids_def lastn_def far_apart_def)

lemma handled_subset_dispatched:
  assumes "handled_inv s"
  shows "handledToolCallIds s \<subseteq> set (dispatched_ids s)"
proof -
  have "handledToolCallIds s = set (lastn 100 (dispatched_ids s))"
    using assms unfolding handled_inv_def by metis
  then show ?thesis by (auto simp: lastn_def dest: in_set_dropD)
qed

text \<open>Authoritative events for identifiers not seen before are all dispatched.\<close>

lemma run_done_fresh:
  assumes "handled_inv s" and "distinct xs" and "set xs \<inter> set (dispatched_ids s) = {}"
    and "[] \<notin> set xs"
  shows "dispatched_ids (on_openai_messages (map done_event xs) s) = dispatched_ids s @ xs"
  using assms
proof (induction xs arbitrary: s)
  case Nil
  then show ?case by (simp add: on_openai_messages_def)
next
  case (Cons x xs)
  let ?s1 = "on_openai_message (done_event x) s"
  have "x \<notin> handledToolCallIds s"
    using handled_subset_dispatched[OF Cons.prems(1)] Cons.prems(3) by auto
  moreover have "x \<noteq> []" using Cons.prems(4) by auto
  ultimately have d: "dispatched_ids ?s1 = dispatched_ids s @ [x]"
    by (simp add: dispatched_ids_def done_event_def arguments_done_dispatch or_empty_def)
  have "dispatched_ids (on_openai_messages (map done_event xs) ?s1) = dispatched_ids ?s1 @ xs"
  proof (rule Cons.IH)
    show "handled_inv ?s1" using Cons.prems(1) by (rule handled_inv_step)
    show "distinct xs" using Cons.prems(2) by simp
    show "set xs \<inter> set (dispatched_ids ?s1) = {}"
      using Cons.prems(2,3) d by auto
    show "[] \<notin> set xs" using Cons.prems(4) by simp
  qed
  with d show ?case by (simp add: on_openai_messages_def)
qed

lemma many_ids_facts:
  "distinct many_ids" "[] \<notin> set many_ids" "''c'' \<in> set many_ids"
  "''c'' \<notin> set (lastn 100 many_ids)"
proof -
  show "distinct many_ids"
    unfolding many_ids_def by (simp add: distinct_map inj_on_def)
  show "[] \<notin> set many_ids"
    unfolding many_ids_def by auto
  have "''c'' = replicate (Suc 0) (CHR ''c'')" by simp
  then show "''c'' \<in> set many_ids"
    unfolding many_ids_def by (auto simp: image_iff intro!: bexI[of _ 0])
  have "lastn 100 many_ids = map (\<lambda>k. replicate (Suc k) (CHR ''c'')) [1..<101]"
    unfolding many_ids_def lastn_def by (simp add: drop_map)
  then show "''c'' \<notin> set (lastn 100 many_ids)"
    by auto
qed

text \<open>
  C2, the claim as stated. A fresh session receives authoritative events for 101
  distinct call identifiers, the first of which is \<^verbatim>\<open>c\<close>, and then the event for \<^verbatim>\<open>c\<close>
  once more. The 101st dispatch has evicted \<^verbatim>\<open>c\<close> from the handled set, so \<^verbatim>\<open>c\<close> is
  dispatched a second time.
\<close>

theorem redispatch_after_eviction:
  "\<not> distinct (map call_id (dispatched
       (on_openai_messages (map done_event (many_ids @ [''c'']))
          (new_session ''203.0.113.7'' 1))))"
proof -
  let ?s0 = "new_session ''203.0.113.7'' 1"
  let ?s1 = "on_openai_messages (map done_event many_ids) ?s0"
  have inv0: "handled_inv ?s0"
    by (rule handled_inv_fresh) (simp_all add: new_session_def)
  have ids0: "dispatched_ids ?s0 = []"
    by (simp add: dispatched_ids_def new_session_def)
  have ids1: "dispatched_ids ?s1 = many_ids"
    using run_done_fresh[OF inv0 many_ids_facts(1) _ many_ids_facts(2)] ids0 by simp
  have inv1: "handled_inv ?s1" using inv0 by (rule handled_inv_run)
  then have "handledToolCallIds ?s1 = set (lastn 100 (dispatched_ids ?s1))"
    unfolding handled_inv_def by metis
  with ids1 many_ids_facts(4) have "''c'' \<notin> handledToolCallIds ?s1" by simp
  then have "dispatched_ids (on_openai_message (done_event ''c'') ?s1) = many_ids @ [''c'']"
    using ids1 by (simp add: dispatched_ids_def done_event_def arguments_done_dispatch or_empty_def)
  moreover have "on_openai_messages (map done_event (many_ids @ [''c''])) ?s0
      = on_openai_message (done_event ''c'') ?s1"
    by (simp add: on_openai_messages_def)
  ultimately have "map call_id (dispatched
       (on_openai_messages (map done_event (many_ids @ [''c''])) ?s0)) = many_ids @ [''c'']"
    by (simp add: dispatched_ids_def)
  with many_ids_facts(3) show ?thesis by simp
qed

text \<open>
  C2, amended. Let a session that has dispatched nothing yet process any sequence of
  speech-AI events. Then two dispatches of one call identifier lie more than 100
  positions apart in the order of dispatch (at least 100 other dispatches come between
  them); in particular, while the session has dispatched at most 101 calls, no
  identifier has been dispatched twice, whichever authoritative forms arrived and
  however often. The handled set holds exactly the identifiers of the
  latest 100 dispatches (older ones are evicted, oldest first), and an authoritative
  event, of either form, for an identifier in the handled set dispatches nothing.
\<close>

theorem dispatch_at_most_once_within_bound:
  assumes "dispatched s0 = []" "handledToolCallIds s0 = {}" "handledToolCallOrder s0 = []"
  shows "(let s = on_openai_messages evs s0; ids = map call_id (dispatched s)
          in (\<forall>j < length ids. \<forall>i < j. ids ! i = ids ! j \<longrightarrow> 100 < j - i)
           \<and> (length ids \<le> 101 \<longrightarrow> distinct ids)
           \<and> handledToolCallOrder s = drop (length ids - 100) ids
           \<and> handledToolCallIds s = set (handledToolCallOrder s)
           \<and> (\<forall>cid nm args. cid \<in> handledToolCallIds s \<longrightarrow>
                 dispatched (on_openai_message (FunctionCallArgumentsDone (Some cid) nm args) s)
                   = dispatched s
               \<and> dispatched (on_openai_message
                   (OutputItemDone (Some (function_call_item cid nm args))) s) = dispatched s))"
proof -
  let ?s = "on_openai_messages evs s0"
  let ?ids = "map call_id (dispatched ?s)"
  have "handled_inv ?s"
    using handled_inv_fresh[OF assms] by (rule handled_inv_run)
  then have inv: "handledToolCallIds ?s = set (handledToolCallOrder ?s)"
    "handledToolCallOrder ?s = lastn 100 ?ids" "far_apart ?ids"
    unfolding handled_inv_def dispatched_ids_def by blast+
  have far: "\<forall>j < length ?ids. \<forall>i < j. ?ids ! i = ?ids ! j \<longrightarrow> 100 < j - i"
    using inv(3) unfolding far_apart_def .
  have "distinct ?ids" if "length ?ids \<le> 101"
    unfolding distinct_conv_nth
  proof (intro allI impI)
    fix i j assume ij: "i < length ?ids" "j < length ?ids" "i \<noteq> j"
    show "?ids ! i \<noteq> ?ids ! j"
    proof
      assume eq: "?ids ! i = ?ids ! j"
      from ij(3) consider "i < j" | "j < i" by arith
      then show False
      proof cases
        case 1
        with far ij(2) eq have "100 < j - i" by blast
        with ij(2) that show False by arith
      next
        case 2
        with far ij(1) eq have "100 < i - j" by metis
        with ij(1) that show False by arith
      qed
    qed
  qed
  moreover have "handledToolCallOrder ?s = drop (length ?ids - 100) ?ids"
    using inv(2) by (simp add: lastn_def)
  ultimately show ?thesis
    using far inv(1)
    by (simp add: Let_def arguments_done_dispatch output_item_done_dispatch)
qed

theorem dispatch_at_most_once_within_bound_witness:
  "map call_id (dispatched (on_openai_messages
       [FunctionCallArgumentsDone (Some ''C1'') (Some ''lookup'') (Some ''{}''),
        OutputItemDone (Some (function_call_item ''C1'' (Some ''lookup'') (Some ''{}''))),
        OutputItemDone (Some (function_call_item ''C1'' (Some ''lookup'') (Some ''{}'')))]
       (new_session ''203.0.113.7'' 7))) = [''C1'']
   \<and> handledToolCallOrder (on_openai_messages
       [FunctionCallArgumentsDone (Some ''C1'') (Some ''lookup'') (Some ''{}''),
        OutputItemDone (Some (function_call_item ''C1'' (Some ''lookup'') (Some ''{}''))),
        OutputItemDone (Some (function_call_item ''C1'' (Some ''lookup'') (Some ''{}'')))]
       (new_session ''203.0.113.7'' 7)) = [''C1'']
   \<and> handledToolCallIds (on_openai_messages
       [FunctionCallArgumentsDone (Some ''C1'') (Some ''lookup'') (Some ''{}''),
        OutputItemDone (Some (function_call_item ''C1'' (Some ''lookup'') (Some ''{}''))),
        OutputItemDone (Some (function_call_item ''C1'' (Some ''lookup'') (Some ''{}'')))]
       (new_session ''203.0.113.7'' 7)) = {''C1''}"
proof -
  let ?init = "new_session ''203.0.113.7'' 7"
  let ?a = "FunctionCallArgumentsDone (Some ''C1'') (Some ''lookup'') (Some ''{}'')"
  let ?b = "OutputItemDone (Some (function_call_item ''C1'' (Some ''lookup'') (Some ''{}'')))"
  let ?fin = "on_openai_messages [?a, ?b, ?b] ?init"
  have f: "dispatched ?init = []" "handledToolCallIds ?init = {}" "handledToolCallOrder ?init = []"
    by (simp_all add: new_session_def)
  note t = dispatch_at_most_once_within_bound[OF f, of "[?a, ?b, ?b]", unfolded Let_def]
  from t have order: "handledToolCallOrder ?fin
      = drop (length (map call_id (dispatched ?fin)) - 100) (map call_id (dispatched ?fin))"
    and ids: "handledToolCallIds ?fin = set (handledToolCallOrder ?fin)"
    by blast+
  have s1: "dispatched (on_openai_message ?a ?init)
      = [\<lparr>call_id = ''C1'', fn_name = ''lookup'', args_str = ''{}''\<rparr>]"
    by (simp add: arguments_done_dispatch or_empty_def new_session_def)
  have h1: "''C1'' \<in> handledToolCallIds (on_openai_message ?a ?init)"
    using dispatch_at_most_once_within_bound[OF f, of "[?a]", unfolded Let_def] s1
    by (simp add: on_openai_messages_def)
  have s2: "dispatched (on_openai_message ?b (on_openai_message ?a ?init))
      = [\<lparr>call_id = ''C1'', fn_name = ''lookup'', args_str = ''{}''\<rparr>]"
    unfolding output_item_done_dispatch using h1 s1 by (simp add: or_empty_def)
  have h2: "''C1'' \<in> handledToolCallIds (on_openai_message ?b (on_openai_message ?a ?init))"
    using dispatch_at_most_once_within_bound[OF f, of "[?a, ?b]", unfolded Let_def] s2
    by (simp add: on_openai_messages_def)
  have s3: "dispatched ?fin = [\<lparr>call_id = ''C1'', fn_name = ''lookup'', args_str = ''{}''\<rparr>]"
    unfolding on_openai_messages_def fold_simps comp_apply output_item_done_dispatch
    using h1 h2 s1 by (simp add: or_empty_def)
  from order ids s3 show ?thesis by simp
qed

end
